theory Spec2Isabelle
  imports Main "HOL-Library.Sublist" "HOL-Library.AList"
begin

section \<open>LocalFlowService: the data the service handles\<close>

text \<open>
  The theory follows \<^verbatim>\<open>pkg/nuclide/flow-base/lib/LocalFlowService.js\<close>. The service
  is a class with two mutable sets and asynchronous methods that call collaborators
  (\<^verbatim>\<open>getFlowExecOptions\<close>, \<^verbatim>\<open>getPathToFlow\<close>, \<^verbatim>\<open>asyncExecute\<close>,
  \<^verbatim>\<open>safeSpawn\<close>, \<^verbatim>\<open>insertAutocompleteToken\<close>, \<^verbatim>\<open>JSON.parse\<close>). The two sets are
  a record that every method takes and returns; what the service does to the outside
  (running the binary, spawning a server, sending a signal) is appended to a trace of
  events; a promise that rejects, or a statement that throws, is the left summand of the
  result. Calls to the logger have no effect on the service and are left out.

  A method runs here without another one interleaving at its \<^verbatim>\<open>await\<close> points. The
  only state such an interleaving could change under a running \<^verbatim>\<open>_execFlow\<close> is
  \<^verbatim>\<open>_failedRoots\<close>, which \<^verbatim>\<open>_execFlow\<close> reads once, before its loop.

  Strings are lists of 8-bit characters and numbers are integers: the line, column and
  exit-code values this service handles. Identifiers of the source that start with an
  underscore lose it (\<^verbatim>\<open>_execFlow\<close> is \<open>execFlow\<close>).
\<close>

subsection \<open>Values of the host language\<close>

text \<open>What \<^verbatim>\<open>JSON.parse\<close> returns. An object lists each of its keys once.\<close>

datatype json =
    JNull
  | JBool bool
  | JNum int
  | JStr string
  | JArr "json list"
  | JObj "(string \<times> json) list"

text \<open>
  What a \<^verbatim>\<open>catch\<close> clause can receive: the object \<^verbatim>\<open>asyncExecute\<close> rejects with,
  any of whose fields may be missing (\<open>None\<close> is \<^verbatim>\<open>undefined\<close>), or the
  \<^verbatim>\<open>TypeError\<close> the host raises when a property of \<^verbatim>\<open>undefined\<close> or \<^verbatim>\<open>null\<close>
  is read, or the \<^verbatim>\<open>SyntaxError\<close> of \<^verbatim>\<open>JSON.parse\<close>.
\<close>

datatype js_thrown =
    Rejected "int option" "string option" "string option"
  | TypeError
  | SyntaxError

fun thr_exitCode :: "js_thrown \<Rightarrow> int option" where
  "thr_exitCode (Rejected c out err) = c"
| "thr_exitCode TypeError = None"
| "thr_exitCode SyntaxError = None"

fun thr_stdout :: "js_thrown \<Rightarrow> string option" where
  "thr_stdout (Rejected c out err) = out"
| "thr_stdout TypeError = None"
| "thr_stdout SyntaxError = None"

fun thr_stderr :: "js_thrown \<Rightarrow> string option" where
  "thr_stderr (Rejected c out err) = err"
| "thr_stderr TypeError = None"
| "thr_stderr SyntaxError = None"

text \<open>
  \<^verbatim>\<open>json[key]\<close>, for the keys this service reads (\<^verbatim>\<open>path\<close>, \<^verbatim>\<open>line\<close>,
  \<^verbatim>\<open>start\<close>, \<^verbatim>\<open>errors\<close>, \<^verbatim>\<open>name\<close>, \<^verbatim>\<open>type\<close>), none of which a prototype
  defines: on \<^verbatim>\<open>null\<close> the read throws, on an object it is the own property or
  \<^verbatim>\<open>undefined\<close>, on every other value it is \<^verbatim>\<open>undefined\<close>.
\<close>

fun js_prop :: "json \<Rightarrow> string \<Rightarrow> js_thrown + json option" where
  "js_prop JNull k = Inl TypeError"
| "js_prop (JObj kvs) k = Inr (map_of kvs k)"
| "js_prop v k = Inr None"

text \<open>The truth value of \<^verbatim>\<open>if (v)\<close>.\<close>

fun truthy :: "json option \<Rightarrow> bool" where
  "truthy None = False"
| "truthy (Some JNull) = False"
| "truthy (Some (JBool b)) = b"
| "truthy (Some (JNum n)) = (n \<noteq> 0)"
| "truthy (Some (JStr s)) = (s \<noteq> [])"
| "truthy (Some (JArr xs)) = True"
| "truthy (Some (JObj kvs)) = True"

text \<open>
  The number \<^verbatim>\<open>v - 1\<close>. On a number it is the difference; \<^verbatim>\<open>undefined\<close> gives
  \<^verbatim>\<open>NaN\<close>, \<^verbatim>\<open>null\<close> and \<^verbatim>\<open>false\<close> count as 0 and \<^verbatim>\<open>true\<close> as 1. A string,
  an array or an object is first turned into a number by the host's own reading of its
  text, which is kept unevaluated as \<open>MinusOneOf v\<close>.
\<close>

datatype jsnum = Num int | NaN | MinusOneOf json

fun js_minus_one :: "json option \<Rightarrow> jsnum" where
  "js_minus_one None = NaN"
| "js_minus_one (Some JNull) = Num (0 - 1)"
| "js_minus_one (Some (JBool b)) = Num ((if b then 1 else 0) - 1)"
| "js_minus_one (Some (JNum n)) = Num (n - 1)"
| "js_minus_one (Some v) = MinusOneOf v"

subsection \<open>Processes, options and the service's state\<close>

text \<open>An element of the \<^verbatim>\<open>args\<close> array: a string or a number.\<close>

datatype arg = AStr string | ANum int

record options =
  stdin :: "string option"

text \<open>What \<^verbatim>\<open>getFlowExecOptions\<close> resolves to when it is not \<^verbatim>\<open>null\<close>.\<close>

record flow_options =
  cwd :: string

text \<open>\<^verbatim>\<open>assign({}, options, flowOptions)\<close>: the fields of both.\<close>

record local_options =
  lo_stdin :: "string option"
  lo_cwd :: string

definition assign :: "options \<Rightarrow> flow_options \<Rightarrow> local_options" where
  "assign opts flowOptions = \<lparr>lo_stdin = stdin opts, lo_cwd = cwd flowOptions\<rparr>"

text \<open>The object \<^verbatim>\<open>asyncExecute\<close> resolves with.\<close>

record exec_result =
  exitCode :: int
  stdout :: string
  stderr :: string

text \<open>
  A \<^verbatim>\<open>ChildProcess\<close> that \<^verbatim>\<open>safeSpawn\<close> returned. Every object is its own:
  \<open>pid\<close> is the length of the trace when it was spawned. \<open>exit_root\<close> is the
  \<^verbatim>\<open>root\<close> that the listener \<^verbatim>\<open>_execFlow\<close> attaches to its \<^verbatim>\<open>exit\<close> event closes over.
\<close>

record child_process =
  pid :: nat
  exit_root :: string

datatype event =
    is_Exec: Exec string "arg list" local_options
  | is_Spawn: Spawn string "string list" child_process
  | is_Kill: Kill child_process string

type_synonym trace = "event list"

text \<open>
  The fields of the class. \<^verbatim>\<open>_startedServers\<close> is iterated, so it is the list of its
  elements in insertion order; \<^verbatim>\<open>_failedRoots\<close> is only added to and asked for
  membership.
\<close>

record service =
  startedServers :: "child_process list"
  failedRoots :: "string set"

definition constructor :: service where
  "constructor = \<lparr>startedServers = [], failedRoots = {}\<rparr>"

text \<open>\<^verbatim>\<open>Set.prototype.add\<close> on the list of elements.\<close>

definition set_add :: "'a \<Rightarrow> 'a list \<Rightarrow> 'a list" where
  "set_add x xs = (if x \<in> set xs then xs else xs @ [x])"

text \<open>
  The collaborators, which are not part of this file. \<^verbatim>\<open>asyncExecute\<close> may answer
  differently each time it is called: its answer depends on the trace so far.
  \<open>Inl\<close> is a rejected promise.
\<close>

record env =
  getFlowExecOptions :: "string \<Rightarrow> js_thrown + flow_options option"
  getPathToFlow :: "js_thrown + string"
  asyncExecute :: "trace \<Rightarrow> string \<Rightarrow> arg list \<Rightarrow> local_options \<Rightarrow> js_thrown + exec_result"
  insertAutocompleteToken :: "string \<Rightarrow> int \<Rightarrow> int \<Rightarrow> string"
  JSON_parse :: "string \<Rightarrow> json option"

section \<open>The methods\<close>

subsection \<open>dispose\<close>

definition dispose :: "service \<Rightarrow> trace \<Rightarrow> service \<times> trace" where
  "dispose s w = (s, w @ map (\<lambda>server. Kill server ''SIGKILL'') (startedServers s))"

subsection \<open>The executor\<close>

definition maxTries :: nat where
  "maxTries = 5"

definition safeSpawn :: "trace \<Rightarrow> string \<Rightarrow> child_process" where
  "safeSpawn w root = \<lparr>pid = length w, exit_root = root\<rparr>"

text \<open>
  The listener on a spawned server's \<^verbatim>\<open>exit\<close> event, called with the exit code and
  the signal (\<open>None\<close> is \<^verbatim>\<open>null\<close>).
\<close>

definition on_exit :: "service \<Rightarrow> child_process \<Rightarrow> int option \<Rightarrow> string option \<Rightarrow> service" where
  "on_exit s serverProcess code signal =
     (if code = Some 2 \<and> signal = None
      then s\<lparr>failedRoots := insert (exit_root serverProcess) (failedRoots s)\<rparr>
      else s)"

text \<open>
  The loop \<^verbatim>\<open>for (var i = 0; ; i++)\<close>, from the value of \<open>i\<close> on. The string
  given to \<^verbatim>\<open>match\<close> has no character special in a regular expression, so the test
  is whether \<^verbatim>\<open>e.stderr\<close> contains it.
\<close>

function exec_loop ::
  "env \<Rightarrow> string \<Rightarrow> string \<Rightarrow> arg list \<Rightarrow> local_options \<Rightarrow> nat \<Rightarrow> service \<Rightarrow> trace
    \<Rightarrow> (js_thrown + exec_result option) \<times> service \<times> trace" where
  "exec_loop E root pathToFlow args localOptions i s w =
     (case asyncExecute E w pathToFlow args localOptions of
        Inr result \<Rightarrow> (Inr (Some result), s, w @ [Exec pathToFlow args localOptions])
      | Inl e \<Rightarrow>
          if i \<ge> maxTries then (Inl e, s, w @ [Exec pathToFlow args localOptions])
          else
            (case thr_stderr e of
               None \<Rightarrow> (Inl TypeError, s, w @ [Exec pathToFlow args localOptions])
             | Some err \<Rightarrow>
                 if sublist ''There is no flow server running'' err
                 then
                   (let serverProcess = safeSpawn (w @ [Exec pathToFlow args localOptions]) root
                    in exec_loop E root pathToFlow args localOptions (i + 1)
                         (s\<lparr>startedServers := set_add serverProcess (startedServers s)\<rparr>)
                         (w @ [Exec pathToFlow args localOptions,
                               Spawn pathToFlow [''server'', root] serverProcess]))
                 else (Inl e, s, w @ [Exec pathToFlow args localOptions])))"
  by pat_completeness auto
termination
  by (relation "measure (\<lambda>(E, root, pathToFlow, args, localOptions, i, s, w). maxTries - i)") auto

declare exec_loop.simps [simp del]

definition execFlow ::
  "env \<Rightarrow> service \<Rightarrow> trace \<Rightarrow> arg list \<Rightarrow> options \<Rightarrow> string
    \<Rightarrow> (js_thrown + exec_result option) \<times> service \<times> trace" where
  "execFlow E s w args opts file =
     (case getFlowExecOptions E file of
        Inl e \<Rightarrow> (Inl e, s, w)
      | Inr None \<Rightarrow> (Inr None, s, w)
      | Inr (Some flowOptions) \<Rightarrow>
          (let root = cwd flowOptions;
               localOptions = assign opts flowOptions
           in if root \<in> failedRoots s then (Inr None, s, w)
              else
                (case getPathToFlow E of
                   Inl e \<Rightarrow> (Inl e, s, w)
                 | Inr pathToFlow \<Rightarrow>
                     exec_loop E root pathToFlow (args @ [AStr ''--no-auto-start''])
                       localOptions 0 s w)))"

subsection \<open>findDefinition\<close>

text \<open>The type \<^verbatim>\<open>Loc\<close>, with the fields \<^verbatim>\<open>file\<close>, \<^verbatim>\<open>line\<close> and \<^verbatim>\<open>column\<close>.\<close>

record loc =
  loc_file :: "json option"
  loc_line :: jsnum
  loc_column :: jsnum

definition definition_args :: "string \<Rightarrow> int \<Rightarrow> int \<Rightarrow> arg list" where
  "definition_args f ln col =
     [AStr ''get-def'', AStr ''--json'', AStr ''--path'', AStr f, ANum ln, ANum col]"

text \<open>The statements inside \<^verbatim>\<open>try\<close>.\<close>

definition findDefinition_try ::
  "env \<Rightarrow> service \<Rightarrow> trace \<Rightarrow> string \<Rightarrow> string \<Rightarrow> int \<Rightarrow> int
    \<Rightarrow> (js_thrown + loc option) \<times> service \<times> trace" where
  "findDefinition_try E s w f currentContents ln col =
     (let opts = \<lparr>stdin = Some currentContents\<rparr>;
          args = definition_args f ln col
      in case execFlow E s w args opts f of
           (Inl e, s', w') \<Rightarrow> (Inl e, s', w')
         | (Inr None, s', w') \<Rightarrow> (Inr None, s', w')
         | (Inr (Some result), s', w') \<Rightarrow>
             if exitCode result = 0 then
               (case JSON_parse E (stdout result) of
                  None \<Rightarrow> (Inl SyntaxError, s', w')
                | Some json \<Rightarrow>
                    (case js_prop json ''path'' of
                       Inl e \<Rightarrow> (Inl e, s', w')
                     | Inr p \<Rightarrow>
                         if truthy p then
                           (case js_prop json ''line'' of
                              Inl e \<Rightarrow> (Inl e, s', w')
                            | Inr l \<Rightarrow>
                                (case js_prop json ''start'' of
                                   Inl e \<Rightarrow> (Inl e, s', w')
                                 | Inr c \<Rightarrow>
                                     (Inr (Some \<lparr>loc_file = p, loc_line = js_minus_one l,
                                                    loc_column = js_minus_one c\<rparr>), s', w')))
                         else (Inr None, s', w')))
             else (Inr None, s', w'))"

definition findDefinition ::
  "env \<Rightarrow> service \<Rightarrow> trace \<Rightarrow> string \<Rightarrow> string \<Rightarrow> int \<Rightarrow> int
    \<Rightarrow> (js_thrown + loc option) \<times> service \<times> trace" where
  "findDefinition E s w f currentContents ln col =
     (case findDefinition_try E s w f currentContents ln col of
        (Inl e, s', w') \<Rightarrow> (Inr None, s', w')
      | (Inr r, s', w') \<Rightarrow> (Inr r, s', w'))"

subsection \<open>findDiagnostics\<close>

text \<open>
  After the first \<^verbatim>\<open>try\<close>, \<^verbatim>\<open>result\<close> is what \<^verbatim>\<open>_execFlow\<close> returned or
  what it threw; \<open>diag_stdout\<close> is its \<^verbatim>\<open>stdout\<close> field in both cases.
  \<^verbatim>\<open>JSON.parse(undefined)\<close> throws. The last statement, \<^verbatim>\<open>return json['errors']\<close>,
  stands outside both \<^verbatim>\<open>try\<close> blocks.
\<close>

definition diag_decode ::
  "env \<Rightarrow> string option \<Rightarrow> js_thrown + json option" where
  "diag_decode E out =
     (case (case out of None \<Rightarrow> None | Some text \<Rightarrow> JSON_parse E text) of
        None \<Rightarrow> Inr (Some (JArr []))
      | Some json \<Rightarrow> js_prop json ''errors'')"

text \<open>
  \<^verbatim>\<open>if (currentContents)\<close> holds for a string that is neither \<^verbatim>\<open>null\<close> nor
  empty. The two definitions are the values of \<^verbatim>\<open>options\<close> and \<^verbatim>\<open>args\<close> after it.
\<close>

definition diagnostics_options :: "string option \<Rightarrow> options" where
  "diagnostics_options currentContents =
     (if currentContents \<noteq> None \<and> currentContents \<noteq> Some []
      then \<lparr>stdin = currentContents\<rparr>
      else \<lparr>stdin = None\<rparr>)"

definition diagnostics_args :: "string \<Rightarrow> string option \<Rightarrow> arg list" where
  "diagnostics_args f currentContents =
     (if currentContents \<noteq> None \<and> currentContents \<noteq> Some []
      then [AStr ''check-contents'', AStr ''--json'', AStr f]
      else [AStr ''status'', AStr ''--json'', AStr f])"

definition findDiagnostics ::
  "env \<Rightarrow> service \<Rightarrow> trace \<Rightarrow> string \<Rightarrow> string option
    \<Rightarrow> (js_thrown + json option) \<times> service \<times> trace" where
  "findDiagnostics E s w f currentContents =
     (let opts = diagnostics_options currentContents;
          args = diagnostics_args f currentContents
      in case execFlow E s w args opts f of
           (Inr None, s', w') \<Rightarrow> (Inr (Some (JArr [])), s', w')
         | (Inr (Some result), s', w') \<Rightarrow> (diag_decode E (Some (stdout result)), s', w')
         | (Inl e, s', w') \<Rightarrow>
             if thr_exitCode e \<noteq> None then (diag_decode E (thr_stdout e), s', w')
             else (Inr (Some (JArr [])), s', w'))"

subsection \<open>getAutocompleteSuggestions\<close>

record suggestion =
  sugg_text :: "json option"
  rightLabel :: "json option"
  replacementPrefix :: string

text \<open>
  The characters of the class \<^verbatim>\<open>\s\<close> among the 7-bit characters: tab, line feed,
  vertical tab, form feed, carriage return and space.
\<close>

definition is_space :: "char \<Rightarrow> bool" where
  "is_space c = (c \<in> {CHR 0x09, CHR 0x0A, CHR 0x0B, CHR 0x0C, CHR 0x0D, CHR 0x20})"

text \<open>\<^verbatim>\<open>json.map(item => ...)\<close> on the elements of an array.\<close>

fun map_items :: "string \<Rightarrow> json list \<Rightarrow> js_thrown + suggestion list" where
  "map_items rp [] = Inr []"
| "map_items rp (item # items) =
     (case js_prop item ''name'' of
        Inl e \<Rightarrow> Inl e
      | Inr n \<Rightarrow>
          (case js_prop item ''type'' of
             Inl e \<Rightarrow> Inl e
           | Inr t \<Rightarrow>
               (case map_items rp items of
                  Inl e \<Rightarrow> Inl e
                | Inr rest \<Rightarrow>
                    Inr (\<lparr>sugg_text = n, rightLabel = t, replacementPrefix = rp\<rparr> # rest))))"

text \<open>Only an array has a \<^verbatim>\<open>map\<close> that can be called.\<close>

fun json_map :: "string \<Rightarrow> json \<Rightarrow> js_thrown + suggestion list" where
  "json_map rp (JArr items) = map_items rp items"
| "json_map rp v = Inl TypeError"

definition autocomplete_args :: "string \<Rightarrow> arg list" where
  "autocomplete_args f = [AStr ''autocomplete'', AStr ''--json'', AStr f]"

definition getAutocompleteSuggestions_try ::
  "env \<Rightarrow> service \<Rightarrow> trace \<Rightarrow> string \<Rightarrow> options \<Rightarrow> string
    \<Rightarrow> (js_thrown + suggestion list) \<times> service \<times> trace" where
  "getAutocompleteSuggestions_try E s w f opts pfx =
     (let args = autocomplete_args f
      in case execFlow E s w args opts f of
           (Inl e, s', w') \<Rightarrow> (Inl e, s', w')
         | (Inr None, s', w') \<Rightarrow> (Inr [], s', w')
         | (Inr (Some result), s', w') \<Rightarrow>
             if exitCode result = 0 then
               (case JSON_parse E (stdout result) of
                  None \<Rightarrow> (Inl SyntaxError, s', w')
                | Some json \<Rightarrow>
                    (let rp = (if list_all is_space pfx then [] else pfx)
                     in (json_map rp json, s', w')))
             else (Inr [], s', w'))"

definition getAutocompleteSuggestions ::
  "env \<Rightarrow> service \<Rightarrow> trace \<Rightarrow> string \<Rightarrow> string \<Rightarrow> int \<Rightarrow> int \<Rightarrow> string
    \<Rightarrow> (js_thrown + suggestion list) \<times> service \<times> trace" where
  "getAutocompleteSuggestions E s w f currentContents ln col pfx =
     (let opts = \<lparr>stdin = Some (insertAutocompleteToken E currentContents ln col)\<rparr>
      in case getAutocompleteSuggestions_try E s w f opts pfx of
           (Inl e, s', w') \<Rightarrow> (Inr [], s', w')
         | (Inr r, s', w') \<Rightarrow> (Inr r, s', w'))"

subsection \<open>getType\<close>

definition newline :: char where
  "newline = CHR 0x0A"

text \<open>\<^verbatim>\<open>output.split('\n')[0]\<close>: the text before the first line feed.\<close>

definition first_line :: "string \<Rightarrow> string" where
  "first_line output = takeWhile (\<lambda>c. c \<noteq> newline) output"

text \<open>\<^verbatim>\<open>args\<close>, after \<^verbatim>\<open>line = line + 1\<close> and \<^verbatim>\<open>column = column + 1\<close>.\<close>

definition type_args :: "int \<Rightarrow> int \<Rightarrow> arg list" where
  "type_args ln0 col0 =
     (let ln = ln0 + 1; col = col0 + 1 in [AStr ''type-at-pos'', ANum ln, ANum col])"

definition getType ::
  "env \<Rightarrow> service \<Rightarrow> trace \<Rightarrow> string \<Rightarrow> string \<Rightarrow> int \<Rightarrow> int
    \<Rightarrow> (js_thrown + string option) \<times> service \<times> trace" where
  "getType E s w f currentContents ln0 col0 =
     (let opts = \<lparr>stdin = Some currentContents\<rparr>;
          args = type_args ln0 col0
      in case execFlow E s w args opts f of
           (Inl e, s', w') \<Rightarrow> (Inr None, s', w')
         | (Inr None, s', w') \<Rightarrow> (Inr None, s', w')
         | (Inr (Some result), s', w') \<Rightarrow>
             (let output = stdout result
              in if sublist (newline # ''Failure'') output then (Inr None, s', w')
                 else
                   (let type = first_line output
                    in if type = ''(unknown)'' \<or> type = [] then (Inr None, s', w')
                       else (Inr (Some type), s', w'))))"

section \<open>Sequences of calls\<close>

text \<open>
  What can happen to a service, one after the other: a call of one of its methods, or
  the \<^verbatim>\<open>exit\<close> event of a server process. Each call brings its own collaborators.
\<close>

datatype call =
    Dispose
  | ExecFlow env "arg list" options string
  | FindDefinition env string string int int
  | FindDiagnostics env string "string option"
  | GetAutocompleteSuggestions env string string int int string
  | GetType env string string int int
  | Exit child_process "int option" "string option"

fun step :: "call \<Rightarrow> service \<times> trace \<Rightarrow> service \<times> trace" where
  "step Dispose (s, w) = dispose s w"
| "step (ExecFlow E args opts f) (s, w) = snd (execFlow E s w args opts f)"
| "step (FindDefinition E f currentContents ln col) (s, w) =
     snd (findDefinition E s w f currentContents ln col)"
| "step (FindDiagnostics E f currentContents) (s, w) =
     snd (findDiagnostics E s w f currentContents)"
| "step (GetAutocompleteSuggestions E f currentContents ln col pfx) (s, w) =
     snd (getAutocompleteSuggestions E s w f currentContents ln col pfx)"
| "step (GetType E f currentContents ln col) (s, w) =
     snd (getType E s w f currentContents ln col)"
| "step (Exit serverProcess code signal) (s, w) = (on_exit s serverProcess code signal, w)"

definition run :: "call list \<Rightarrow> service \<times> trace \<Rightarrow> service \<times> trace" where
  "run calls st = fold step calls st"

section \<open>A decoder and collaborators for the examples\<close>

text \<open>
  The theorems below hold for every decoder \<open>JSON_parse\<close>. The examples need one that
  runs: \<open>json_parse\<close> reads the JSON texts whose numbers are integers and whose strings
  have no escape sequence, and returns \<open>None\<close> on every other text. The recursion is
  on a counter that starts above the length of the text.
\<close>


definition is_ws :: "char \<Rightarrow> bool" where
  "is_ws c = (c \<in> {CHR 0x20, CHR 0x09, CHR 0x0A, CHR 0x0D})"

definition skip_ws :: "string \<Rightarrow> string" where
  "skip_ws text = dropWhile is_ws text"

definition is_digit :: "char \<Rightarrow> bool" where
  "is_digit c = (48 \<le> (of_char c :: nat) \<and> (of_char c :: nat) \<le> 57)"

definition digits_value :: "string \<Rightarrow> int" where
  "digits_value ds = foldl (\<lambda>n c. 10 * n + (int (of_char c) - 48)) 0 ds"

definition parse_digits :: "string \<Rightarrow> (int \<times> string) option" where
  "parse_digits text =
     (let ds = takeWhile is_digit text; rest = dropWhile is_digit text
      in if ds = [] \<or> (hd ds = CHR ''0'' \<and> length ds > 1) then None
         else if rest \<noteq> [] \<and> hd rest \<in> {CHR ''.'', CHR ''e'', CHR ''E''} then None
         else Some (digits_value ds, rest))"

definition plain_char :: "char \<Rightarrow> bool" where
  "plain_char c = (c \<noteq> CHR 0x22 \<and> c \<noteq> CHR 0x5C \<and> 32 \<le> (of_char c :: nat))"

definition parse_string :: "string \<Rightarrow> (string \<times> string) option" where
  "parse_string text =
     (case text of
        [] \<Rightarrow> None
      | q # body \<Rightarrow>
          if q \<noteq> CHR 0x22 then None
          else (case dropWhile plain_char body of
                  [] \<Rightarrow> None
                | q' # rest \<Rightarrow>
                    if q' = CHR 0x22 then Some (takeWhile plain_char body, rest) else None))"

fun parse_value :: "nat \<Rightarrow> string \<Rightarrow> (json \<times> string) option"
  and parse_elements :: "nat \<Rightarrow> string \<Rightarrow> (json list \<times> string) option"
  and parse_members :: "nat \<Rightarrow> string \<Rightarrow> ((string \<times> json) list \<times> string) option" where
  "parse_value 0 text = None"
| "parse_value (Suc n) text =
     (let t = skip_ws text in
      if take 4 t = ''null'' then Some (JNull, drop 4 t)
      else if take 4 t = ''true'' then Some (JBool True, drop 4 t)
      else if take 5 t = ''false'' then Some (JBool False, drop 5 t)
      else if take 1 t = [CHR 0x22] then
        (case parse_string t of None \<Rightarrow> None | Some (str, rest) \<Rightarrow> Some (JStr str, rest))
      else if take 1 t = ''['' then
        (if take 1 (skip_ws (drop 1 t)) = '']'' then Some (JArr [], drop 1 (skip_ws (drop 1 t)))
         else (case parse_elements n (drop 1 t) of
                 None \<Rightarrow> None
               | Some (vs, rest) \<Rightarrow> Some (JArr vs, rest)))
      else if take 1 t = ''{'' then
        (if take 1 (skip_ws (drop 1 t)) = ''}'' then Some (JObj [], drop 1 (skip_ws (drop 1 t)))
         else (case parse_members n (drop 1 t) of
                 None \<Rightarrow> None
               | Some (kvs, rest) \<Rightarrow>
                   Some (JObj (foldl (\<lambda>m (k, v). AList.update k v m) [] kvs), rest)))
      else if take 1 t = ''-'' then
        (case parse_digits (drop 1 t) of None \<Rightarrow> None | Some (m, rest) \<Rightarrow> Some (JNum (- m), rest))
      else
        (case parse_digits t of None \<Rightarrow> None | Some (m, rest) \<Rightarrow> Some (JNum m, rest)))"
| "parse_elements 0 text = None"
| "parse_elements (Suc n) text =
     (case parse_value n text of
        None \<Rightarrow> None
      | Some (v, rest) \<Rightarrow>
          (let t = skip_ws rest in
           if take 1 t = '']'' then Some ([v], drop 1 t)
           else if take 1 t = '','' then
             (case parse_elements n (drop 1 t) of
                None \<Rightarrow> None
              | Some (vs, rest') \<Rightarrow> Some (v # vs, rest'))
           else None))"
| "parse_members 0 text = None"
| "parse_members (Suc n) text =
     (case parse_string (skip_ws text) of
        None \<Rightarrow> None
      | Some (k, rest) \<Rightarrow>
          (let t = skip_ws rest in
           if take 1 t = '':'' then
             (case parse_value n (drop 1 t) of
                None \<Rightarrow> None
              | Some (v, rest') \<Rightarrow>
                  (let t' = skip_ws rest' in
                   if take 1 t' = ''}'' then Some ([(k, v)], drop 1 t')
                   else if take 1 t' = '','' then
                     (case parse_members n (drop 1 t') of
                        None \<Rightarrow> None
                      | Some (kvs, rest'') \<Rightarrow> Some ((k, v) # kvs, rest''))
                   else None))
           else None))"

definition json_parse :: "string \<Rightarrow> json option" where
  "json_parse text =
     (case parse_value (Suc (length text)) text of
        None \<Rightarrow> None
      | Some (v, rest) \<Rightarrow> if skip_ws rest = [] then Some v else None)"

text \<open>
  Collaborators for a project at \<^verbatim>\<open>/proj\<close>: a file below it has that root, the
  binary is \<^verbatim>\<open>flow\<close>, and \<open>answers\<close> says how each run of the binary ends.
\<close>

definition example_env :: "(trace \<Rightarrow> js_thrown + exec_result) \<Rightarrow> env" where
  "example_env answers =
     \<lparr>getFlowExecOptions =
        (\<lambda>f. Inr (if prefix ''/proj/'' f then Some \<lparr>cwd = ''/proj''\<rparr> else None)),
      getPathToFlow = Inr ''flow'',
      asyncExecute = (\<lambda>w pathToFlow args localOptions. answers w),
      insertAutocompleteToken = (\<lambda>currentContents ln col. currentContents),
      JSON_parse = json_parse\<rparr>"

text \<open>The failure of a run while no server is up, and the answers of three worlds.\<close>

definition no_server :: js_thrown where
  "no_server =
     Rejected (Some 6) (Some []) (Some ''There is no flow server running in /proj.'')"

definition never_up :: "trace \<Rightarrow> js_thrown + exec_result" where
  "never_up w = Inl no_server"

definition up_after_spawn :: "string \<Rightarrow> trace \<Rightarrow> js_thrown + exec_result" where
  "up_after_spawn out w =
     (if filter is_Spawn w = [] then Inl no_server
      else Inr \<lparr>exitCode = 0, stdout = out, stderr = []\<rparr>)"

definition prints :: "string \<Rightarrow> trace \<Rightarrow> js_thrown + exec_result" where
  "prints out w = Inr \<lparr>exitCode = 0, stdout = out, stderr = []\<rparr>"

definition fails_with :: "int \<Rightarrow> string \<Rightarrow> trace \<Rightarrow> js_thrown + exec_result" where
  "fails_with code out w = Inl (Rejected (Some code) (Some out) (Some []))"

definition always_rejects :: "js_thrown \<Rightarrow> trace \<Rightarrow> js_thrown + exec_result" where
  "always_rejects e w = Inl e"


section \<open>Predicates of the statements\<close>

text \<open>
  One round of the loop either ends the call or spawns a server and goes on; \<open>retries\<close>
  is the condition under which it goes on.
\<close>

definition retries :: "env \<Rightarrow> string \<Rightarrow> arg list \<Rightarrow> local_options \<Rightarrow> nat \<Rightarrow> trace \<Rightarrow> bool" where
  "retries E p args lo i w =
     (case asyncExecute E w p args lo of
        Inr result \<Rightarrow> False
      | Inl e \<Rightarrow>
          i < maxTries \<and>
          (case thr_stderr e of
             None \<Rightarrow> False
           | Some err \<Rightarrow> sublist ''There is no flow server running'' err))"

text \<open>
  What one run of the loop appends to the trace: at most \<open>k\<close> spawns, one run of the
  binary more than spawns, no signal, a run of the binary last, and every spawned server
  is in \<^verbatim>\<open>_startedServers\<close>, listens for the exit with this root and was started as
  \<^verbatim>\<open>flow server root\<close>.
\<close>

definition loop_events :: "string \<Rightarrow> string \<Rightarrow> service \<Rightarrow> nat \<Rightarrow> event list \<Rightarrow> bool" where
  "loop_events root p s' k evs =
     (length (filter is_Spawn evs) \<le> k \<and>
      length (filter is_Exec evs) = Suc (length (filter is_Spawn evs)) \<and>
      filter is_Kill evs = [] \<and> evs \<noteq> [] \<and> is_Exec (last evs) \<and>
      (\<forall>path a q. Spawn path a q \<in> set evs \<longrightarrow>
         q \<in> set (startedServers s') \<and> exit_root q = root \<and> path = p \<and>
         a = [''server'', root]))"

text \<open>
  \<^verbatim>\<open>_startedServers\<close> has no element twice and holds every server the trace says was
  spawned.
\<close>

definition tracked :: "service \<Rightarrow> trace \<Rightarrow> bool" where
  "tracked s w =
     (distinct (startedServers s) \<and>
      (\<forall>path a q. Spawn path a q \<in> set w \<longrightarrow> q \<in> set (startedServers s)))"

text \<open>Every run of the binary fails with the message that no server is running.\<close>

definition sustained_absence :: "env \<Rightarrow> bool" where
  "sustained_absence E =
     (\<forall>w p args lo. \<exists>e err. asyncExecute E w p args lo = Inl e \<and> thr_stderr e = Some err \<and>
                       sublist ''There is no flow server running'' err)"

text \<open>The target path of a decoded reply: \<^verbatim>\<open>json['path']\<close> where \<^verbatim>\<open>if (json['path'])\<close> holds.\<close>

definition target_path :: "json \<Rightarrow> json option" where
  "target_path json =
     (case js_prop json ''path'' of
        Inl e \<Rightarrow> None
      | Inr p \<Rightarrow> if truthy p then p else None)"

text \<open>\<^verbatim>\<open>output.split('\n')\<close>: the lines of a text.\<close>

fun split_lines :: "string \<Rightarrow> string list" where
  "split_lines [] = [[]]"
| "split_lines (c # cs) =
     (if c = newline then [] # split_lines cs
      else (c # hd (split_lines cs)) # tl (split_lines cs))"

text \<open>
  The result of the type query as the specification words it: no result when the line
  that follows the first begins with \<^verbatim>\<open>Failure\<close>, otherwise the first line, except that
  \<^verbatim>\<open>(unknown)\<close> and the empty line are no result.
\<close>

definition claimed_type :: "string \<Rightarrow> string option" where
  "claimed_type output =
     (let ls = split_lines output in
      if 1 < length ls \<and> prefix ''Failure'' (ls ! 1) then None
      else if hd ls = ''(unknown)'' \<or> hd ls = [] then None
      else Some (hd ls))"

section \<open>Facts about the executor and the calls\<close>

lemmas example_simps =
  example_env_def up_after_spawn_def never_up_def prints_def fails_with_def no_server_def
  constructor_def execFlow_def exec_loop.simps maxTries_def safeSpawn_def set_add_def
  assign_def sublist_code(3) Let_def

lemma exec_loop_failedRoots:
  "exec_loop E root p args lo i s w = (r, s', w') \<Longrightarrow> failedRoots s' = failedRoots s"
proof (induction E root p args lo i s w arbitrary: r s' w' rule: exec_loop.induct)
  case (1 E root p args lo i s w)
  show ?case
    using "1.prems" "1.IH"
    by (subst (asm) exec_loop.simps)
       (auto split: sum.splits option.splits if_splits simp: Let_def)
qed

lemma execFlow_failedRoots:
  "execFlow E s w args opts f = (r, s', w') \<Longrightarrow> failedRoots s' = failedRoots s"
  by (auto simp: execFlow_def Let_def split: sum.splits option.splits if_splits
           dest: exec_loop_failedRoots)

lemma findDefinition_state:
  "snd (findDefinition E s w f cc ln col) =
   snd (execFlow E s w (definition_args f ln col) \<lparr>stdin = Some cc\<rparr> f)"
  by (simp add: findDefinition_def findDefinition_try_def Let_def
           split: prod.splits sum.splits option.splits)

lemma findDiagnostics_state:
  "snd (findDiagnostics E s w f cc) =
   snd (execFlow E s w (diagnostics_args f cc) (diagnostics_options cc) f)"
  by (simp add: findDiagnostics_def Let_def split: prod.splits sum.splits option.splits)

lemma getAutocompleteSuggestions_state:
  "snd (getAutocompleteSuggestions E s w f cc ln col pfx) =
   snd (execFlow E s w (autocomplete_args f)
          \<lparr>stdin = Some (insertAutocompleteToken E cc ln col)\<rparr> f)"
  by (simp add: getAutocompleteSuggestions_def getAutocompleteSuggestions_try_def Let_def
           split: prod.splits sum.splits option.splits)

lemma getType_state:
  "snd (getType E s w f cc ln col) =
   snd (execFlow E s w (type_args ln col) \<lparr>stdin = Some cc\<rparr> f)"
  by (simp add: getType_def Let_def split: prod.splits sum.splits option.splits)

lemma step_cases:
  "step c (s, w) = dispose s w
   \<or> (\<exists>E args opts f. step c (s, w) = snd (execFlow E s w args opts f))
   \<or> (\<exists>p code signal. step c (s, w) = (on_exit s p code signal, w))"
proof (cases c)
  case Dispose
  then show ?thesis by simp
next
  case (ExecFlow E args opts f)
  then show ?thesis by auto
next
  case (FindDefinition E f cc ln col)
  then show ?thesis using findDefinition_state by fastforce
next
  case (FindDiagnostics E f cc)
  then show ?thesis using findDiagnostics_state by fastforce
next
  case (GetAutocompleteSuggestions E f cc ln col pfx)
  then show ?thesis using getAutocompleteSuggestions_state by fastforce
next
  case (GetType E f cc ln col)
  then show ?thesis using getType_state by fastforce
next
  case (Exit p code signal)
  then have "step c (s, w) = (on_exit s p code signal, w)" by simp
  then show ?thesis by blast
qed

lemma step_failedRoots:
  assumes "step c (s, w) = (s', w')"
  shows "failedRoots s \<subseteq> failedRoots s'"
proof -
  consider "dispose s w = (s', w')"
    | E args opts f where "snd (execFlow E s w args opts f) = (s', w')"
    | p code signal where "on_exit s p code signal = s'"
    using step_cases [of c s w] assms by auto
  then show ?thesis
  proof cases
    case 1
    then show ?thesis by (simp add: dispose_def)
  next
    case 2
    then have "execFlow E s w args opts f = (fst (execFlow E s w args opts f), s', w')"
      by (metis prod.collapse)
    then show ?thesis using execFlow_failedRoots by blast
  next
    case 3
    then show ?thesis by (auto simp: on_exit_def split: if_splits)
  qed
qed

lemma run_failedRoots:
  "run calls (s, w) = (s', w') \<Longrightarrow> failedRoots s \<subseteq> failedRoots s'"
proof (induction calls arbitrary: s w)
  case Nil
  then show ?case by (simp add: run_def)
next
  case (Cons c calls)
  obtain s1 w1 where st: "step c (s, w) = (s1, w1)" by (cases "step c (s, w)")
  with Cons.prems have "run calls (s1, w1) = (s', w')" by (simp add: run_def)
  with Cons.IH have "failedRoots s1 \<subseteq> failedRoots s'" by blast
  with step_failedRoots [OF st] show ?case by blast
qed

lemma set_add_set: "set (set_add x xs) = insert x (set xs)"
  by (auto simp: set_add_def)

lemma set_add_distinct: "distinct xs \<Longrightarrow> distinct (set_add x xs)"
  by (simp add: set_add_def)

lemma set_add_length: "length (set_add x xs) \<le> Suc (length xs)"
  by (simp add: set_add_def)

lemma exec_loop_retry:
  assumes "retries E p args lo i w"
  shows "exec_loop E root p args lo i s w =
         exec_loop E root p args lo (i + 1)
           (s\<lparr>startedServers :=
                set_add (safeSpawn (w @ [Exec p args lo]) root) (startedServers s)\<rparr>)
           (w @ [Exec p args lo,
                 Spawn p [''server'', root] (safeSpawn (w @ [Exec p args lo]) root)])"
  using assms
  by (subst exec_loop.simps)
     (simp add: retries_def Let_def split: sum.splits option.splits)

lemma exec_loop_stop:
  assumes "\<not> retries E p args lo i w"
  shows "\<exists>r. exec_loop E root p args lo i s w = (r, s, w @ [Exec p args lo])"
  using assms
  by (subst exec_loop.simps)
     (auto simp: retries_def Let_def not_le split: sum.splits option.splits)

lemma retries_bound: "retries E p args lo i w \<Longrightarrow> i < maxTries"
  by (simp add: retries_def split: sum.splits)

lemma exec_loop_servers:
  "exec_loop E root p args lo i s w = (r, s', w') \<Longrightarrow>
   set (startedServers s) \<subseteq> set (startedServers s') \<and>
   (distinct (startedServers s) \<longrightarrow> distinct (startedServers s')) \<and>
   length (startedServers s') \<le> length (startedServers s) + (maxTries - i)"
proof (induction "maxTries - i" arbitrary: i s w)
  case 0
  then have "\<not> retries E p args lo i w"
    using retries_bound by fastforce
  from exec_loop_stop [OF this, of root s] "0.prems" show ?case
    by auto
next
  case (Suc n)
  show ?case
  proof (cases "retries E p args lo i w")
    case False
    from exec_loop_stop [OF this, of root s] Suc.prems show ?thesis
      by auto
  next
    case True
    define sp where "sp = safeSpawn (w @ [Exec p args lo]) root"
    define s1 where "s1 = s\<lparr>startedServers := set_add sp (startedServers s)\<rparr>"
    from exec_loop_retry [OF True, of root s] Suc.prems
    have run: "exec_loop E root p args lo (i + 1) s1
                 (w @ [Exec p args lo, Spawn p [''server'', root] sp]) = (r, s', w')"
      by (simp add: sp_def s1_def)
    have n: "n = maxTries - (i + 1)"
      using Suc.hyps(2) by linarith
    from Suc.hyps(1) [OF n run]
    have ih: "set (startedServers s1) \<subseteq> set (startedServers s')"
      "distinct (startedServers s1) \<longrightarrow> distinct (startedServers s')"
      "length (startedServers s') \<le> length (startedServers s1) + (maxTries - (i + 1))"
      by blast+
    have s1: "startedServers s1 = set_add sp (startedServers s)"
      by (simp add: s1_def)
    have "set (startedServers s) \<subseteq> set (startedServers s')"
      using ih(1) unfolding s1 set_add_set by blast
    moreover have "distinct (startedServers s) \<longrightarrow> distinct (startedServers s')"
    proof
      assume "distinct (startedServers s)"
      then have "distinct (set_add sp (startedServers s))"
        by (rule set_add_distinct)
      with ih(2) show "distinct (startedServers s')"
        by (simp add: s1)
    qed
    moreover have "length (startedServers s') \<le> length (startedServers s) + (maxTries - i)"
    proof -
      have a: "length (startedServers s1) \<le> Suc (length (startedServers s))"
        unfolding s1 by (rule set_add_length)
      have b: "maxTries - i = Suc (maxTries - (i + 1))"
        using Suc.hyps(2) n by simp
      from ih(3) a show ?thesis
        unfolding b by simp
    qed
    ultimately show ?thesis by blast
  qed
qed

lemma exec_loop_trace:
  "exec_loop E root p args lo i s w = (r, s', w') \<Longrightarrow>
   \<exists>evs. w' = w @ evs \<and> loop_events root p s' (maxTries - i) evs"
proof (induction "maxTries - i" arbitrary: i s w)
  case 0
  then have "\<not> retries E p args lo i w"
    using retries_bound by fastforce
  from exec_loop_stop [OF this, of root s] "0.prems"
  have "w' = w @ [Exec p args lo]" by auto
  moreover have "loop_events root p s' (maxTries - i) [Exec p args lo]"
    by (simp add: loop_events_def)
  ultimately show ?case by blast
next
  case (Suc n)
  show ?case
  proof (cases "retries E p args lo i w")
    case False
    from exec_loop_stop [OF this, of root s] Suc.prems
    have "w' = w @ [Exec p args lo]" by auto
    moreover have "loop_events root p s' (maxTries - i) [Exec p args lo]"
      by (simp add: loop_events_def)
    ultimately show ?thesis by blast
  next
    case True
    define sp where "sp = safeSpawn (w @ [Exec p args lo]) root"
    define s1 where "s1 = s\<lparr>startedServers := set_add sp (startedServers s)\<rparr>"
    from exec_loop_retry [OF True, of root s] Suc.prems
    have run: "exec_loop E root p args lo (i + 1) s1
                 (w @ [Exec p args lo, Spawn p [''server'', root] sp]) = (r, s', w')"
      by (simp add: sp_def s1_def)
    have n: "n = maxTries - (i + 1)"
      using Suc.hyps(2) by linarith
    from Suc.hyps(1) [OF n run]
    obtain evs where evs: "w' = (w @ [Exec p args lo, Spawn p [''server'', root] sp]) @ evs"
      and le: "loop_events root p s' (maxTries - (i + 1)) evs"
      by blast
    have "sp \<in> set (startedServers s1)"
      by (simp add: s1_def set_add_set)
    with exec_loop_servers [OF run] have sp_in: "sp \<in> set (startedServers s')"
      by blast
    have sp_root: "exit_root sp = root"
      by (simp add: sp_def safeSpawn_def)
    have b: "maxTries - i = Suc (maxTries - (i + 1))"
      using Suc.hyps(2) n by simp
    have "w' = w @ ([Exec p args lo, Spawn p [''server'', root] sp] @ evs)"
      using evs by simp
    moreover have "loop_events root p s' (maxTries - i)
                     ([Exec p args lo, Spawn p [''server'', root] sp] @ evs)"
      using le sp_in sp_root unfolding b loop_events_def by auto
    ultimately show ?thesis by blast
  qed
qed

lemma execFlow_servers:
  assumes "execFlow E s w args opts f = (r, s', w')"
  shows "set (startedServers s) \<subseteq> set (startedServers s') \<and>
         (distinct (startedServers s) \<longrightarrow> distinct (startedServers s')) \<and>
         length (startedServers s') \<le> length (startedServers s) + maxTries"
proof (cases "\<exists>flowOptions pathToFlow. getFlowExecOptions E f = Inr (Some flowOptions) \<and>
                cwd flowOptions \<notin> failedRoots s \<and> getPathToFlow E = Inr pathToFlow")
  case False
  with assms have "s' = s"
    by (auto simp: execFlow_def Let_def split: sum.splits option.splits if_splits)
  then show ?thesis by simp
next
  case True
  then obtain flowOptions pathToFlow where c: "getFlowExecOptions E f = Inr (Some flowOptions)"
    "cwd flowOptions \<notin> failedRoots s" "getPathToFlow E = Inr pathToFlow"
    by blast
  with assms have "exec_loop E (cwd flowOptions) pathToFlow (args @ [AStr ''--no-auto-start''])
      (assign opts flowOptions) 0 s w = (r, s', w')"
    by (simp add: execFlow_def Let_def)
  from exec_loop_servers [OF this] show ?thesis
    by simp
qed

text \<open>What one call of the executor appends to the trace: nothing, or the events of its loop.\<close>

lemma execFlow_trace:
  assumes "execFlow E s w args opts f = (r, s', w')"
  shows "w' = w \<or>
         (\<exists>evs flowOptions pathToFlow.
            w' = w @ evs \<and> getFlowExecOptions E f = Inr (Some flowOptions) \<and>
            getPathToFlow E = Inr pathToFlow \<and>
            loop_events (cwd flowOptions) pathToFlow s' maxTries evs)"
proof (cases "\<exists>flowOptions pathToFlow. getFlowExecOptions E f = Inr (Some flowOptions) \<and>
                cwd flowOptions \<notin> failedRoots s \<and> getPathToFlow E = Inr pathToFlow")
  case False
  with assms have "w' = w"
    by (auto simp: execFlow_def Let_def split: sum.splits option.splits if_splits)
  then show ?thesis by simp
next
  case True
  then obtain flowOptions pathToFlow where c: "getFlowExecOptions E f = Inr (Some flowOptions)"
    "cwd flowOptions \<notin> failedRoots s" "getPathToFlow E = Inr pathToFlow"
    by blast
  with assms have "exec_loop E (cwd flowOptions) pathToFlow (args @ [AStr ''--no-auto-start''])
      (assign opts flowOptions) 0 s w = (r, s', w')"
    by (simp add: execFlow_def Let_def)
  from exec_loop_trace [OF this] obtain evs where
    "w' = w @ evs" "loop_events (cwd flowOptions) pathToFlow s' maxTries evs"
    by auto
  with c(1,3) show ?thesis by blast
qed

lemma on_exit_startedServers: "startedServers (on_exit s p code signal) = startedServers s"
  by (simp add: on_exit_def)

lemma execFlow_tracked:
  assumes "execFlow E s w args opts f = (r, s', w')" and "tracked s w"
  shows "tracked s' w'"
proof -
  from execFlow_servers [OF assms(1)]
  have sub: "set (startedServers s) \<subseteq> set (startedServers s')"
    and dist: "distinct (startedServers s) \<longrightarrow> distinct (startedServers s')"
    by blast+
  from assms(2) have d: "distinct (startedServers s')"
    using dist by (simp add: tracked_def)
  have "q \<in> set (startedServers s')" if "Spawn path a q \<in> set w'" for path a q
  proof -
    from execFlow_trace [OF assms(1)]
    consider "w' = w"
      | evs root p where "w' = w @ evs" "loop_events root p s' maxTries evs"
      by blast
    then show ?thesis
    proof cases
      case 1
      with that assms(2) sub show ?thesis
        by (auto simp: tracked_def)
    next
      case 2
      from that 2(1) have "Spawn path a q \<in> set w \<or> Spawn path a q \<in> set evs"
        by simp
      then show ?thesis
      proof
        assume "Spawn path a q \<in> set w"
        with assms(2) sub show ?thesis by (auto simp: tracked_def)
      next
        assume "Spawn path a q \<in> set evs"
        with 2(2) show ?thesis by (simp add: loop_events_def)
      qed
    qed
  qed
  with d show ?thesis by (simp add: tracked_def)
qed

lemma step_servers:
  assumes "step c (s, w) = (s', w')"
  shows "set (startedServers s) \<subseteq> set (startedServers s') \<and> (tracked s w \<longrightarrow> tracked s' w')"
proof -
  consider "dispose s w = (s', w')"
    | E args opts f where "snd (execFlow E s w args opts f) = (s', w')"
    | p code signal where "on_exit s p code signal = s'" "w' = w"
    using step_cases [of c s w] assms by auto
  then show ?thesis
  proof cases
    case 1
    then have "s' = s" "w' = w @ map (\<lambda>server. Kill server ''SIGKILL'') (startedServers s)"
      by (auto simp: dispose_def)
    then show ?thesis by (auto simp: tracked_def)
  next
    case 2
    then have e: "execFlow E s w args opts f = (fst (execFlow E s w args opts f), s', w')"
      by (metis prod.collapse)
    from execFlow_servers [OF e] execFlow_tracked [OF e] show ?thesis by blast
  next
    case 3
    then show ?thesis
      by (auto simp: tracked_def on_exit_def)
  qed
qed

lemma run_servers:
  "run calls (s, w) = (s', w') \<Longrightarrow>
   set (startedServers s) \<subseteq> set (startedServers s') \<and> (tracked s w \<longrightarrow> tracked s' w')"
proof (induction calls arbitrary: s w)
  case Nil
  then show ?case by (simp add: run_def)
next
  case (Cons c calls)
  obtain s1 w1 where st: "step c (s, w) = (s1, w1)" by (cases "step c (s, w)")
  with Cons.prems have "run calls (s1, w1) = (s', w')" by (simp add: run_def)
  from Cons.IH [OF this] step_servers [OF st] show ?case by blast
qed

lemma tracked_constructor: "tracked constructor []"
  by (simp add: tracked_def constructor_def)

section \<open>A root that has crashed\<close>

text \<open>
  C1. Once a root is in \<^verbatim>\<open>_failedRoots\<close>, it stays there through every later call and
  event, and every later \<^verbatim>\<open>_execFlow\<close> for a file whose options name that root returns
  \<^verbatim>\<open>null\<close> at once: the service's sets and the trace are as before the call, so the
  binary was not run and no process was spawned.
\<close>

theorem crashed_root_no_result:
  assumes "getFlowExecOptions E f = Inr (Some flowOptions)"
    and "cwd flowOptions \<in> failedRoots s0"
    and "run calls (s0, w0) = (s, w)"
  shows "execFlow E s w args opts f = (Inr None, s, w)"
proof -
  from assms(2,3) have "cwd flowOptions \<in> failedRoots s"
    using run_failedRoots by blast
  with assms(1) show ?thesis
    by (simp add: execFlow_def Let_def)
qed

theorem crashed_root_no_result_witness:
  "getFlowExecOptions (example_env (prints ''Foo'')) ''/proj/b.js'' = Inr (Some \<lparr>cwd = ''/proj''\<rparr>)
   \<and> cwd \<lparr>cwd = ''/proj''\<rparr>
       \<in> failedRoots (on_exit constructor \<lparr>pid = 1, exit_root = ''/proj''\<rparr> (Some 2) None)
   \<and> run [GetType (example_env (prints ''Foo'')) ''/proj/a.js'' [] 0 0, Dispose]
         (on_exit constructor \<lparr>pid = 1, exit_root = ''/proj''\<rparr> (Some 2) None, [])
       = (\<lparr>startedServers = [], failedRoots = {''/proj''}\<rparr>, [])
   \<and> execFlow (example_env (prints ''Foo'')) \<lparr>startedServers = [], failedRoots = {''/proj''}\<rparr> []
         (type_args 3 4) \<lparr>stdin = None\<rparr> ''/proj/b.js''
       = (Inr None, \<lparr>startedServers = [], failedRoots = {''/proj''}\<rparr>, [])"
proof -
  have a: "getFlowExecOptions (example_env (prints ''Foo'')) ''/proj/b.js''
             = Inr (Some \<lparr>cwd = ''/proj''\<rparr>)"
    by (simp add: example_env_def)
  have b: "cwd \<lparr>cwd = ''/proj''\<rparr>
             \<in> failedRoots (on_exit constructor \<lparr>pid = 1, exit_root = ''/proj''\<rparr> (Some 2) None)"
    by (simp add: on_exit_def)
  have c: "run [GetType (example_env (prints ''Foo'')) ''/proj/a.js'' [] 0 0, Dispose]
             (on_exit constructor \<lparr>pid = 1, exit_root = ''/proj''\<rparr> (Some 2) None, [])
           = (\<lparr>startedServers = [], failedRoots = {''/proj''}\<rparr>, [])"
    by (simp add: run_def getType_def dispose_def on_exit_def example_simps)
  from crashed_root_no_result [OF a b c] a b c show ?thesis
    by simp
qed

lemma count_list_kills:
  "distinct xs \<Longrightarrow>
   count_list (map (\<lambda>server. Kill server sig) xs) (Kill q sig) = (if q \<in> set xs then 1 else 0)"
  by (induction xs) auto

section \<open>The exit of a spawned server\<close>

text \<open>
  C3. Let a server be spawned by a call of \<^verbatim>\<open>_execFlow\<close> for a file whose options name
  a root. When its \<^verbatim>\<open>exit\<close> event arrives with a code and a signal, in whatever state
  the service is then: the root is added to \<^verbatim>\<open>_failedRoots\<close> if the code is 2 and the
  signal is \<^verbatim>\<open>null\<close>, and otherwise the service is left as it was; so the root is
  in the set afterwards exactly if that was the event or it was there before, the
  membership of every other root is unchanged, and an exit with code \<^verbatim>\<open>null\<close> and
  signal \<^verbatim>\<open>SIGTERM\<close> changes nothing.
\<close>

theorem exit_marks_owning_root:
  assumes "execFlow E s w args opts f = (r, s', w')"
    and "Spawn path a serverProcess \<in> set w'"
    and "Spawn path a serverProcess \<notin> set w"
  shows "\<exists>flowOptions. getFlowExecOptions E f = Inr (Some flowOptions) \<and>
           a = [''server'', cwd flowOptions] \<and>
           on_exit s2 serverProcess code signal =
             (if code = Some 2 \<and> signal = None
              then s2\<lparr>failedRoots := insert (cwd flowOptions) (failedRoots s2)\<rparr> else s2) \<and>
           (cwd flowOptions \<in> failedRoots (on_exit s2 serverProcess code signal)) =
             (code = Some 2 \<and> signal = None \<or> cwd flowOptions \<in> failedRoots s2) \<and>
           (\<forall>root. root \<noteq> cwd flowOptions \<longrightarrow>
              (root \<in> failedRoots (on_exit s2 serverProcess code signal)) =
              (root \<in> failedRoots s2)) \<and>
           on_exit s2 serverProcess None (Some ''SIGTERM'') = s2"
proof -
  from execFlow_trace [OF assms(1)] assms(2,3)
  obtain evs flowOptions pathToFlow where e: "w' = w @ evs"
    "getFlowExecOptions E f = Inr (Some flowOptions)"
    "loop_events (cwd flowOptions) pathToFlow s' maxTries evs"
    by auto
  from e(1) assms(2,3) have "Spawn path a serverProcess \<in> set evs"
    by simp
  with e(3) have root: "exit_root serverProcess = cwd flowOptions" "a = [''server'', cwd flowOptions]"
    by (simp_all add: loop_events_def)
  have "on_exit s2 serverProcess code signal =
             (if code = Some 2 \<and> signal = None
              then s2\<lparr>failedRoots := insert (cwd flowOptions) (failedRoots s2)\<rparr> else s2)"
    by (simp add: on_exit_def root)
  moreover have "(cwd flowOptions \<in> failedRoots (on_exit s2 serverProcess code signal)) =
             (code = Some 2 \<and> signal = None \<or> cwd flowOptions \<in> failedRoots s2)"
    by (auto simp: on_exit_def root)
  moreover have "\<forall>root. root \<noteq> cwd flowOptions \<longrightarrow>
              (root \<in> failedRoots (on_exit s2 serverProcess code signal)) =
              (root \<in> failedRoots s2)"
    by (simp add: on_exit_def root)
  moreover have "on_exit s2 serverProcess None (Some ''SIGTERM'') = s2"
    by (simp add: on_exit_def)
  ultimately show ?thesis using e(2) root(2) by blast
qed

lemma example_spawn:
  "execFlow (example_env (up_after_spawn ''Foo'')) constructor [] (type_args 0 0)
     \<lparr>stdin = None\<rparr> ''/proj/a.js''
   = (Inr (Some \<lparr>exitCode = 0, stdout = ''Foo'', stderr = []\<rparr>),
      \<lparr>startedServers = [\<lparr>pid = 1, exit_root = ''/proj''\<rparr>], failedRoots = {}\<rparr>,
      [Exec ''flow'' [AStr ''type-at-pos'', ANum 1, ANum 1, AStr ''--no-auto-start'']
         \<lparr>lo_stdin = None, lo_cwd = ''/proj''\<rparr>,
       Spawn ''flow'' [''server'', ''/proj''] \<lparr>pid = 1, exit_root = ''/proj''\<rparr>,
       Exec ''flow'' [AStr ''type-at-pos'', ANum 1, ANum 1, AStr ''--no-auto-start'']
         \<lparr>lo_stdin = None, lo_cwd = ''/proj''\<rparr>])"
  by (simp add: example_simps type_args_def)

theorem exit_marks_owning_root_witness:
  "execFlow (example_env (up_after_spawn ''Foo'')) constructor [] (type_args 0 0)
     \<lparr>stdin = None\<rparr> ''/proj/a.js''
   = (Inr (Some \<lparr>exitCode = 0, stdout = ''Foo'', stderr = []\<rparr>),
      \<lparr>startedServers = [\<lparr>pid = 1, exit_root = ''/proj''\<rparr>], failedRoots = {}\<rparr>,
      [Exec ''flow'' [AStr ''type-at-pos'', ANum 1, ANum 1, AStr ''--no-auto-start'']
         \<lparr>lo_stdin = None, lo_cwd = ''/proj''\<rparr>,
       Spawn ''flow'' [''server'', ''/proj''] \<lparr>pid = 1, exit_root = ''/proj''\<rparr>,
       Exec ''flow'' [AStr ''type-at-pos'', ANum 1, ANum 1, AStr ''--no-auto-start'']
         \<lparr>lo_stdin = None, lo_cwd = ''/proj''\<rparr>])
   \<and> failedRoots (on_exit \<lparr>startedServers = [\<lparr>pid = 1, exit_root = ''/proj''\<rparr>],
                             failedRoots = {''/other''}\<rparr>
                     \<lparr>pid = 1, exit_root = ''/proj''\<rparr> (Some 2) None)
       = {''/proj'', ''/other''}
   \<and> failedRoots (on_exit \<lparr>startedServers = [\<lparr>pid = 1, exit_root = ''/proj''\<rparr>],
                             failedRoots = {''/other''}\<rparr>
                     \<lparr>pid = 1, exit_root = ''/proj''\<rparr> None (Some ''SIGTERM''))
       = {''/other''}"
proof -
  let ?p = "\<lparr>pid = 1, exit_root = ''/proj''\<rparr>"
  let ?s2 = "\<lparr>startedServers = [?p], failedRoots = {''/other''}\<rparr>"
  have m: "Spawn ''flow'' [''server'', ''/proj''] ?p \<in> set
      [Exec ''flow'' [AStr ''type-at-pos'', ANum 1, ANum 1, AStr ''--no-auto-start'']
         \<lparr>lo_stdin = None, lo_cwd = ''/proj''\<rparr>,
       Spawn ''flow'' [''server'', ''/proj''] ?p,
       Exec ''flow'' [AStr ''type-at-pos'', ANum 1, ANum 1, AStr ''--no-auto-start'']
         \<lparr>lo_stdin = None, lo_cwd = ''/proj''\<rparr>]"
    by simp
  have n: "Spawn ''flow'' [''server'', ''/proj''] ?p \<notin> set []"
    by simp
  have g: "getFlowExecOptions (example_env (up_after_spawn ''Foo'')) ''/proj/a.js''
             = Inr (Some \<lparr>cwd = ''/proj''\<rparr>)"
    by (simp add: example_env_def)
  from exit_marks_owning_root [OF example_spawn m n, of ?s2 "Some 2" None]
  have a: "on_exit ?s2 ?p (Some 2) None = ?s2\<lparr>failedRoots := insert ''/proj'' (failedRoots ?s2)\<rparr>"
    using g by auto
  from exit_marks_owning_root [OF example_spawn m n, of ?s2 None "Some ''SIGTERM''"]
  have b: "on_exit ?s2 ?p None (Some ''SIGTERM'') = ?s2"
    by auto
  show ?thesis
    using example_spawn a b by simp
qed

text \<open>
  C9, as the code has it. The listener for the \<^verbatim>\<open>exit\<close> event does not touch
  \<^verbatim>\<open>_startedServers\<close>, and nothing else removes an element: a server that is in the
  set when it exits is still in the set after the event and after any calls and events
  that follow.
\<close>

theorem exited_server_stays_tracked:
  assumes "serverProcess \<in> set (startedServers s)"
    and "run (Exit serverProcess code signal # calls) (s, w) = (s', w')"
  shows "serverProcess \<in> set (startedServers s')"
  using run_servers [OF assms(2)] assms(1) by blast

theorem exited_server_stays_tracked_witness:
  "\<lparr>pid = 1, exit_root = ''/proj''\<rparr>
     \<in> set (startedServers \<lparr>startedServers = [\<lparr>pid = 1, exit_root = ''/proj''\<rparr>], failedRoots = {}\<rparr>)
   \<and> run [Exit \<lparr>pid = 1, exit_root = ''/proj''\<rparr> (Some 0) None, Dispose]
         (\<lparr>startedServers = [\<lparr>pid = 1, exit_root = ''/proj''\<rparr>], failedRoots = {}\<rparr>, [])
       = (\<lparr>startedServers = [\<lparr>pid = 1, exit_root = ''/proj''\<rparr>], failedRoots = {}\<rparr>,
          [Kill \<lparr>pid = 1, exit_root = ''/proj''\<rparr> ''SIGKILL''])
   \<and> \<lparr>pid = 1, exit_root = ''/proj''\<rparr>
     \<in> set (startedServers \<lparr>startedServers = [\<lparr>pid = 1, exit_root = ''/proj''\<rparr>], failedRoots = {}\<rparr>)"
proof -
  let ?p = "\<lparr>pid = 1, exit_root = ''/proj''\<rparr>"
  let ?s = "\<lparr>startedServers = [?p], failedRoots = {}\<rparr>"
  have a: "?p \<in> set (startedServers ?s)"
    by simp
  have b: "run [Exit ?p (Some 0) None, Dispose] (?s, []) = (?s, [Kill ?p ''SIGKILL''])"
    by (simp add: run_def on_exit_def dispose_def)
  from exited_server_stays_tracked [OF a b] a b show ?thesis
    by simp
qed

text \<open>
  An exited server does not leave the set: the server spawned here exits with code 0 and
  no signal, and is still an element of \<^verbatim>\<open>_startedServers\<close>.
\<close>

theorem exited_server_untracked_counterexample:
  "Spawn ''flow'' [''server'', ''/proj''] \<lparr>pid = 1, exit_root = ''/proj''\<rparr>
     \<in> set (snd (snd (execFlow (example_env (up_after_spawn ''Foo'')) constructor []
                          (type_args 0 0) \<lparr>stdin = None\<rparr> ''/proj/a.js'')))
   \<and> \<lparr>pid = 1, exit_root = ''/proj''\<rparr>
     \<in> set (startedServers
              (on_exit (fst (snd (execFlow (example_env (up_after_spawn ''Foo'')) constructor []
                                    (type_args 0 0) \<lparr>stdin = None\<rparr> ''/proj/a.js'')))
                 \<lparr>pid = 1, exit_root = ''/proj''\<rparr> (Some 0) None))"
  by (simp add: example_spawn on_exit_def)

section \<open>dispose\<close>

text \<open>
  C8, as the code has it. In every state a service reaches from its constructor,
  \<^verbatim>\<open>dispose\<close> appends to the trace one \<^verbatim>\<open>SIGKILL\<close> for each element of
  \<^verbatim>\<open>_startedServers\<close> and nothing else: a server receives the signal once if it is in
  the set and not at all otherwise, every server spawned at any earlier time is in the
  set, and the service, the set included, is left as it was.
\<close>

theorem dispose_kills_every_server_once:
  assumes "run calls (constructor, []) = (s, w)"
  shows "dispose s w = (s, w @ map (\<lambda>server. Kill server ''SIGKILL'') (startedServers s)) \<and>
         (\<forall>q. count_list (map (\<lambda>server. Kill server ''SIGKILL'') (startedServers s))
                (Kill q ''SIGKILL'') = (if q \<in> set (startedServers s) then 1 else 0)) \<and>
         (\<forall>path a q. Spawn path a q \<in> set w \<longrightarrow> q \<in> set (startedServers s))"
proof -
  from run_servers [OF assms] tracked_constructor have t: "tracked s w"
    by blast
  then have "distinct (startedServers s)"
    by (simp add: tracked_def)
  then have "\<forall>q. count_list (map (\<lambda>server. Kill server ''SIGKILL'') (startedServers s))
                (Kill q ''SIGKILL'') = (if q \<in> set (startedServers s) then 1 else 0)"
    using count_list_kills by blast
  moreover have "\<forall>path a q. Spawn path a q \<in> set w \<longrightarrow> q \<in> set (startedServers s)"
    using t by (simp add: tracked_def)
  moreover have "dispose s w = (s, w @ map (\<lambda>server. Kill server ''SIGKILL'') (startedServers s))"
    by (simp add: dispose_def)
  ultimately show ?thesis by blast
qed

lemma example_run:
  "run [ExecFlow (example_env (up_after_spawn ''Foo'')) (type_args 0 0) \<lparr>stdin = None\<rparr> ''/proj/a.js'']
     (constructor, [])
   = (\<lparr>startedServers = [\<lparr>pid = 1, exit_root = ''/proj''\<rparr>], failedRoots = {}\<rparr>,
      [Exec ''flow'' [AStr ''type-at-pos'', ANum 1, ANum 1, AStr ''--no-auto-start'']
         \<lparr>lo_stdin = None, lo_cwd = ''/proj''\<rparr>,
       Spawn ''flow'' [''server'', ''/proj''] \<lparr>pid = 1, exit_root = ''/proj''\<rparr>,
       Exec ''flow'' [AStr ''type-at-pos'', ANum 1, ANum 1, AStr ''--no-auto-start'']
         \<lparr>lo_stdin = None, lo_cwd = ''/proj''\<rparr>])"
  by (simp add: run_def example_spawn)

theorem dispose_kills_every_server_once_witness:
  "run [ExecFlow (example_env (up_after_spawn ''Foo'')) (type_args 0 0) \<lparr>stdin = None\<rparr> ''/proj/a.js'']
     (constructor, [])
   = (\<lparr>startedServers = [\<lparr>pid = 1, exit_root = ''/proj''\<rparr>], failedRoots = {}\<rparr>,
      [Exec ''flow'' [AStr ''type-at-pos'', ANum 1, ANum 1, AStr ''--no-auto-start'']
         \<lparr>lo_stdin = None, lo_cwd = ''/proj''\<rparr>,
       Spawn ''flow'' [''server'', ''/proj''] \<lparr>pid = 1, exit_root = ''/proj''\<rparr>,
       Exec ''flow'' [AStr ''type-at-pos'', ANum 1, ANum 1, AStr ''--no-auto-start'']
         \<lparr>lo_stdin = None, lo_cwd = ''/proj''\<rparr>])
   \<and> snd (dispose \<lparr>startedServers = [\<lparr>pid = 1, exit_root = ''/proj''\<rparr>], failedRoots = {}\<rparr>
        [Exec ''flow'' [AStr ''type-at-pos'', ANum 1, ANum 1, AStr ''--no-auto-start'']
           \<lparr>lo_stdin = None, lo_cwd = ''/proj''\<rparr>,
         Spawn ''flow'' [''server'', ''/proj''] \<lparr>pid = 1, exit_root = ''/proj''\<rparr>,
         Exec ''flow'' [AStr ''type-at-pos'', ANum 1, ANum 1, AStr ''--no-auto-start'']
           \<lparr>lo_stdin = None, lo_cwd = ''/proj''\<rparr>])
     = [Exec ''flow'' [AStr ''type-at-pos'', ANum 1, ANum 1, AStr ''--no-auto-start'']
           \<lparr>lo_stdin = None, lo_cwd = ''/proj''\<rparr>,
        Spawn ''flow'' [''server'', ''/proj''] \<lparr>pid = 1, exit_root = ''/proj''\<rparr>,
        Exec ''flow'' [AStr ''type-at-pos'', ANum 1, ANum 1, AStr ''--no-auto-start'']
           \<lparr>lo_stdin = None, lo_cwd = ''/proj''\<rparr>,
        Kill \<lparr>pid = 1, exit_root = ''/proj''\<rparr> ''SIGKILL'']"
  using dispose_kills_every_server_once [OF example_run] example_run
  by simp

text \<open>
  Disposal does not clear the set: after \<^verbatim>\<open>dispose\<close> it still holds the server
  that was spawned.
\<close>

theorem dispose_clears_counterexample:
  "startedServers
     (fst (dispose
        (fst (snd (execFlow (example_env (up_after_spawn ''Foo'')) constructor []
                     (type_args 0 0) \<lparr>stdin = None\<rparr> ''/proj/a.js'')))
        (snd (snd (execFlow (example_env (up_after_spawn ''Foo'')) constructor []
                     (type_args 0 0) \<lparr>stdin = None\<rparr> ''/proj/a.js'')))))
   = [\<lparr>pid = 1, exit_root = ''/proj''\<rparr>]"
  by (simp add: example_spawn dispose_def)

section \<open>The bound on the retries\<close>

text \<open>
  C10. In a round of the loop with \<open>i\<close> at \<^verbatim>\<open>maxTries\<close> or above, a failure of the
  binary is thrown again as it is, whatever its \<^verbatim>\<open>stderr\<close> holds, and nothing is
  spawned. So a call of \<^verbatim>\<open>_execFlow\<close> spawns at most 5 servers and adds at most 5
  elements to \<^verbatim>\<open>_startedServers\<close>; when it runs the binary at all, it runs it once
  more than it spawns, and the last thing it does is a run of the binary, not a spawn.
\<close>

theorem exhausted_retries_spawn_nothing_more:
  "(maxTries \<le> i \<and> asyncExecute E w p args lo = Inl e \<longrightarrow>
      exec_loop E root p args lo i s w = (Inl e, s, w @ [Exec p args lo])) \<and>
   (execFlow E s w args opts f = (r, s', w') \<longrightarrow>
      (\<exists>evs. w' = w @ evs \<and> length (filter is_Spawn evs) \<le> 5 \<and>
             (evs = [] \<or>
              length (filter is_Exec evs) = Suc (length (filter is_Spawn evs)) \<and>
              is_Exec (last evs)) \<and>
             length (startedServers s') \<le> length (startedServers s) + 5))"
proof (intro conjI impI)
  assume "maxTries \<le> i \<and> asyncExecute E w p args lo = Inl e"
  then show "exec_loop E root p args lo i s w = (Inl e, s, w @ [Exec p args lo])"
    by (subst exec_loop.simps) simp
next
  assume run: "execFlow E s w args opts f = (r, s', w')"
  have len: "length (startedServers s') \<le> length (startedServers s) + 5"
    using execFlow_servers [OF run] by (simp add: maxTries_def)
  from execFlow_trace [OF run]
  consider "w' = w" | evs root p where "w' = w @ evs" "loop_events root p s' maxTries evs"
    by blast
  then show "\<exists>evs. w' = w @ evs \<and> length (filter is_Spawn evs) \<le> 5 \<and>
             (evs = [] \<or>
              length (filter is_Exec evs) = Suc (length (filter is_Spawn evs)) \<and>
              is_Exec (last evs)) \<and>
             length (startedServers s') \<le> length (startedServers s) + 5"
  proof cases
    case 1
    then have "w' = w @ []" by simp
    with len show ?thesis by fastforce
  next
    case 2
    from 2(2) have "length (filter is_Spawn evs) \<le> 5"
      "length (filter is_Exec evs) = Suc (length (filter is_Spawn evs))" "is_Exec (last evs)"
      by (simp_all add: loop_events_def maxTries_def)
    with 2(1) len show ?thesis by blast
  qed
qed

theorem exhausted_retries_spawn_nothing_more_witness:
  "maxTries \<le> 5
   \<and> asyncExecute (example_env (always_rejects (Rejected (Some 1) None None))) [] ''flow'' []
        \<lparr>lo_stdin = None, lo_cwd = ''/proj''\<rparr> = Inl (Rejected (Some 1) None None)
   \<and> exec_loop (example_env (always_rejects (Rejected (Some 1) None None))) ''/proj'' ''flow'' []
        \<lparr>lo_stdin = None, lo_cwd = ''/proj''\<rparr> 5 constructor []
       = (Inl (Rejected (Some 1) None None), constructor,
          [Exec ''flow'' [] \<lparr>lo_stdin = None, lo_cwd = ''/proj''\<rparr>])
   \<and> length (filter is_Spawn (snd (snd (execFlow (example_env never_up) constructor []
          (type_args 0 0) \<lparr>stdin = None\<rparr> ''/proj/a.js'')))) \<le> 5"
proof -
  let ?E = "example_env (always_rejects (Rejected (Some 1) None None))"
  let ?lo = "\<lparr>lo_stdin = None, lo_cwd = ''/proj''\<rparr>"
  let ?X = "execFlow (example_env never_up) constructor [] (type_args 0 0)
              \<lparr>stdin = None\<rparr> ''/proj/a.js''"
  have a: "maxTries \<le> 5 \<and> asyncExecute ?E [] ''flow'' [] ?lo = Inl (Rejected (Some 1) None None)"
    by (simp add: maxTries_def example_env_def always_rejects_def)
  have b: "?X = (fst ?X, fst (snd ?X), snd (snd ?X))"
    by simp
  from a exhausted_retries_spawn_nothing_more
    [where i = 5 and E = ?E and w = "[]" and p = "''flow''" and args = "[]" and lo = ?lo
       and e = "Rejected (Some 1) None None" and root = "''/proj''" and s = constructor]
  have c: "exec_loop ?E ''/proj'' ''flow'' [] ?lo 5 constructor []
       = (Inl (Rejected (Some 1) None None), constructor, [Exec ''flow'' [] ?lo])"
    by simp
  from b exhausted_retries_spawn_nothing_more
    [where E = "example_env never_up" and s = constructor and w = "[]"
       and args = "type_args 0 0" and opts = "\<lparr>stdin = None\<rparr>" and f = "''/proj/a.js''"
       and r = "fst ?X" and s' = "fst (snd ?X)" and w' = "snd (snd ?X)"]
  have d: "length (filter is_Spawn (snd (snd ?X))) \<le> 5"
    by auto
  from a c d show ?thesis by simp
qed

text \<open>
  While every run of the binary fails with the message that no server is running, the
  loop started at \<open>i\<close> runs the binary \<open>maxTries - i + 1\<close> times before it throws.
\<close>

lemma sustained_absence_retries:
  "sustained_absence E \<Longrightarrow> retries E p args lo i w = (i < maxTries)"
  unfolding sustained_absence_def retries_def
  by (metis (no_types, lifting) old.sum.simps(5) option.simps(5))

lemma sustained_absence_loop:
  assumes "sustained_absence E"
  shows "exec_loop E root p args lo i s w = (r, s', w') \<Longrightarrow> i \<le> maxTries \<Longrightarrow>
         \<exists>evs e. w' = w @ evs \<and> r = Inl e \<and>
                 length (filter is_Exec evs) = maxTries - i + 1 \<and>
                 length (filter is_Spawn evs) = maxTries - i"
proof (induction "maxTries - i" arbitrary: i s w)
  case 0
  then have i: "i = maxTries" by simp
  obtain e where e: "asyncExecute E w p args lo = Inl e"
    using assms unfolding sustained_absence_def by blast
  with i "0.prems"(1) have "r = Inl e" "w' = w @ [Exec p args lo]"
    by (subst (asm) exec_loop.simps, simp)+
  then show ?case using i by simp
next
  case (Suc n)
  then have "retries E p args lo i w"
    using sustained_absence_retries [OF assms] by simp
  from exec_loop_retry [OF this, of root s] Suc.prems(1)
  obtain s1 sp where run: "exec_loop E root p args lo (i + 1) s1
                 (w @ [Exec p args lo, Spawn p [''server'', root] sp]) = (r, s', w')"
    by simp
  have n: "n = maxTries - (i + 1)" "i + 1 \<le> maxTries"
    using Suc.hyps(2) by linarith+
  from Suc.hyps(1) [OF n(1) run n(2)]
  obtain evs e where evs: "w' = (w @ [Exec p args lo, Spawn p [''server'', root] sp]) @ evs"
    "r = Inl e" "length (filter is_Exec evs) = maxTries - (i + 1) + 1"
    "length (filter is_Spawn evs) = maxTries - (i + 1)"
    by blast
  have "w' = w @ ([Exec p args lo, Spawn p [''server'', root] sp] @ evs)"
    using evs(1) by simp
  moreover have "length (filter is_Exec ([Exec p args lo, Spawn p [''server'', root] sp] @ evs))
                   = maxTries - i + 1"
    using evs(3) n by simp
  moreover have "length (filter is_Spawn ([Exec p args lo, Spawn p [''server'', root] sp] @ evs))
                   = maxTries - i"
    using evs(4) n by simp
  ultimately show ?case using evs(2) by blast
qed

lemma sustained_absence_execFlow:
  assumes "sustained_absence E"
    and "getFlowExecOptions E f = Inr (Some flowOptions)"
    and "cwd flowOptions \<notin> failedRoots s"
    and "getPathToFlow E = Inr pathToFlow"
    and "execFlow E s w args opts f = (r, s', w')"
  shows "\<exists>evs e. w' = w @ evs \<and> r = Inl e \<and>
           length (filter is_Exec evs) = maxTries + 1 \<and>
           length (filter is_Spawn evs) = maxTries"
proof -
  from assms(2-5) have "exec_loop E (cwd flowOptions) pathToFlow (args @ [AStr ''--no-auto-start''])
      (assign opts flowOptions) 0 s w = (r, s', w')"
    by (simp add: execFlow_def Let_def)
  from sustained_absence_loop [OF assms(1) this] show ?thesis
    by simp
qed

text \<open>
  C2. The bound \<^verbatim>\<open>maxTries = 5\<close> is tested after the run numbered \<open>i\<close> has failed,
  with \<open>i\<close> counted from 0: in a world where no server ever comes up, one call of
  \<^verbatim>\<open>_execFlow\<close> runs the binary 6 times, not 5 (for \<open>i\<close> from 0 to 5), spawns 5
  servers, and throws the last failure.
\<close>

theorem sustained_absence_six_runs:
  "fst (execFlow (example_env never_up) constructor [] (type_args 0 0)
          \<lparr>stdin = None\<rparr> ''/proj/a.js'') = Inl no_server
   \<and> length (filter is_Exec (snd (snd (execFlow (example_env never_up) constructor []
          (type_args 0 0) \<lparr>stdin = None\<rparr> ''/proj/a.js'')))) = 6
   \<and> length (filter is_Spawn (snd (snd (execFlow (example_env never_up) constructor []
          (type_args 0 0) \<lparr>stdin = None\<rparr> ''/proj/a.js'')))) = 5"
  by (simp add: example_simps type_args_def)

lemma example_prints:
  "execFlow (example_env (prints out)) constructor [] args opts ''/proj/a.js''
   = (Inr (Some \<lparr>exitCode = 0, stdout = out, stderr = []\<rparr>), constructor,
      [Exec ''flow'' (args @ [AStr ''--no-auto-start''])
         \<lparr>lo_stdin = stdin opts, lo_cwd = ''/proj''\<rparr>])"
  by (simp add: example_simps)

section \<open>findDefinition\<close>

text \<open>
  C6. Let \<^verbatim>\<open>_execFlow\<close> return a result with exit code 0 whose output decodes to a
  JSON value. If the value carries a target path (\<^verbatim>\<open>json['path']\<close> passes the test
  \<^verbatim>\<open>if (json['path'])\<close>: it is there and is not an empty string) and reports the
  numbers \<open>l\<close> as line and \<open>c\<close> as start, \<^verbatim>\<open>findDefinition\<close> returns that path
  with line \<open>l - 1\<close> and column \<open>c - 1\<close>. If it carries no target path,
  \<^verbatim>\<open>findDefinition\<close> returns \<^verbatim>\<open>null\<close>.
\<close>

theorem findDefinition_location:
  assumes "execFlow E s w (definition_args f ln col) \<lparr>stdin = Some cc\<rparr> f
             = (Inr (Some result), s', w')"
    and "exitCode result = 0"
    and "JSON_parse E (stdout result) = Some json"
  shows "(target_path json = Some path \<and>
          js_prop json ''line'' = Inr (Some (JNum l)) \<and>
          js_prop json ''start'' = Inr (Some (JNum c)) \<longrightarrow>
            findDefinition E s w f cc ln col =
              (Inr (Some \<lparr>loc_file = Some path, loc_line = Num (l - 1), loc_column = Num (c - 1)\<rparr>),
               s', w')) \<and>
         (target_path json = None \<longrightarrow>
            findDefinition E s w f cc ln col = (Inr None, s', w'))"
proof (intro conjI impI)
  assume a: "target_path json = Some path \<and>
          js_prop json ''line'' = Inr (Some (JNum l)) \<and>
          js_prop json ''start'' = Inr (Some (JNum c))"
  then obtain p where p: "js_prop json ''path'' = Inr p" "truthy p" "p = Some path"
    by (auto simp: target_path_def split: sum.splits if_splits)
  with a assms show "findDefinition E s w f cc ln col =
              (Inr (Some \<lparr>loc_file = Some path, loc_line = Num (l - 1), loc_column = Num (c - 1)\<rparr>),
               s', w')"
    by (simp add: findDefinition_def findDefinition_try_def Let_def)
next
  assume "target_path json = None"
  then have "(\<exists>e. js_prop json ''path'' = Inl e) \<or>
             (\<exists>p. js_prop json ''path'' = Inr p \<and> \<not> truthy p)"
    by (cases "js_prop json ''path''") (auto simp: target_path_def split: if_splits)
  with assms show "findDefinition E s w f cc ln col = (Inr None, s', w')"
    by (auto simp: findDefinition_def findDefinition_try_def Let_def)
qed

lemma example_definition_reply:
  "json_parse ''{\"path\":\"/proj/b.js\",\"line\":3,\"start\":5}''
   = Some (JObj [(''path'', JStr ''/proj/b.js''), (''line'', JNum 3), (''start'', JNum 5)])"
  by code_simp

theorem findDefinition_location_witness:
  "execFlow (example_env (prints ''{\"path\":\"/proj/b.js\",\"line\":3,\"start\":5}'')) constructor []
     (definition_args ''/proj/a.js'' 7 8) \<lparr>stdin = Some ''x''\<rparr> ''/proj/a.js''
   = (Inr (Some \<lparr>exitCode = 0, stdout = ''{\"path\":\"/proj/b.js\",\"line\":3,\"start\":5}'',
                  stderr = []\<rparr>), constructor,
      [Exec ''flow'' (definition_args ''/proj/a.js'' 7 8 @ [AStr ''--no-auto-start''])
         \<lparr>lo_stdin = Some ''x'', lo_cwd = ''/proj''\<rparr>])
   \<and> JSON_parse (example_env (prints ''{\"path\":\"/proj/b.js\",\"line\":3,\"start\":5}''))
         ''{\"path\":\"/proj/b.js\",\"line\":3,\"start\":5}''
       = Some (JObj [(''path'', JStr ''/proj/b.js''), (''line'', JNum 3), (''start'', JNum 5)])
   \<and> target_path (JObj [(''path'', JStr ''/proj/b.js''), (''line'', JNum 3), (''start'', JNum 5)])
       = Some (JStr ''/proj/b.js'')
   \<and> fst (findDefinition (example_env (prints ''{\"path\":\"/proj/b.js\",\"line\":3,\"start\":5}''))
            constructor [] ''/proj/a.js'' ''x'' 7 8)
       = Inr (Some \<lparr>loc_file = Some (JStr ''/proj/b.js''), loc_line = Num 2, loc_column = Num 4\<rparr>)"
proof -
  let ?out = "''{\"path\":\"/proj/b.js\",\"line\":3,\"start\":5}''"
  let ?E = "example_env (prints ?out)"
  let ?json = "JObj [(''path'', JStr ''/proj/b.js''), (''line'', JNum 3), (''start'', JNum 5)]"
  let ?r = "\<lparr>exitCode = 0, stdout = ?out, stderr = []\<rparr>"
  have a: "execFlow ?E constructor [] (definition_args ''/proj/a.js'' 7 8)
             \<lparr>stdin = Some ''x''\<rparr> ''/proj/a.js''
           = (Inr (Some ?r), constructor,
              [Exec ''flow'' (definition_args ''/proj/a.js'' 7 8 @ [AStr ''--no-auto-start''])
                 \<lparr>lo_stdin = Some ''x'', lo_cwd = ''/proj''\<rparr>])"
    by (simp only: example_prints options.simps)
  have b: "exitCode ?r = 0"
    by simp
  have c: "JSON_parse ?E (stdout ?r) = Some ?json"
    by (simp add: example_env_def example_definition_reply)
  have d: "target_path ?json = Some (JStr ''/proj/b.js'')"
    by (simp add: target_path_def)
  have e: "js_prop ?json ''line'' = Inr (Some (JNum 3))" "js_prop ?json ''start'' = Inr (Some (JNum 5))"
    by simp_all
  from findDefinition_location [OF a b c, of "JStr ''/proj/b.js''" 3 5] d e
  have "findDefinition ?E constructor [] ''/proj/a.js'' ''x'' 7 8
          = (Inr (Some \<lparr>loc_file = Some (JStr ''/proj/b.js''), loc_line = Num (3 - 1),
                          loc_column = Num (5 - 1)\<rparr>), constructor,
             [Exec ''flow'' (definition_args ''/proj/a.js'' 7 8 @ [AStr ''--no-auto-start''])
                 \<lparr>lo_stdin = Some ''x'', lo_cwd = ''/proj''\<rparr>])"
    by blast
  then have f: "fst (findDefinition ?E constructor [] ''/proj/a.js'' ''x'' 7 8)
          = Inr (Some \<lparr>loc_file = Some (JStr ''/proj/b.js''), loc_line = Num 2, loc_column = Num 4\<rparr>)"
    by simp
  from a c d f show ?thesis
    by (simp only: exec_result.simps) 
qed

section \<open>findDiagnostics\<close>

text \<open>
  C5. Let \<^verbatim>\<open>_execFlow\<close> throw \<open>e\<close>. If \<open>e\<close> has an exit code, its
  \<^verbatim>\<open>stdout\<close> is decoded as that of a result would be; so if it decodes to an object
  with an \<^verbatim>\<open>errors\<close> field, \<^verbatim>\<open>findDiagnostics\<close> returns the value of that field.
  If \<open>e\<close> has no exit code, \<^verbatim>\<open>findDiagnostics\<close> returns the empty list.
\<close>

theorem findDiagnostics_failure_payload:
  assumes "execFlow E s w (diagnostics_args f cc) (diagnostics_options cc) f = (Inl e, s', w')"
  shows "(thr_exitCode e = Some code \<and> thr_stdout e = Some out \<and>
          JSON_parse E out = Some (JObj kvs) \<and> map_of kvs ''errors'' = Some errors \<longrightarrow>
            findDiagnostics E s w f cc = (Inr (Some errors), s', w')) \<and>
         (thr_exitCode e = Some code \<longrightarrow>
            findDiagnostics E s w f cc = (diag_decode E (thr_stdout e), s', w')) \<and>
         (thr_exitCode e = None \<longrightarrow>
            findDiagnostics E s w f cc = (Inr (Some (JArr [])), s', w'))"
  using assms by (simp add: findDiagnostics_def diag_decode_def Let_def)

lemma example_rejects:
  "\<not> sublist ''There is no flow server running'' err \<Longrightarrow>
   execFlow (example_env (always_rejects (Rejected c out (Some err)))) constructor [] args opts
     ''/proj/a.js''
   = (Inl (Rejected c out (Some err)), constructor,
      [Exec ''flow'' (args @ [AStr ''--no-auto-start''])
         \<lparr>lo_stdin = stdin opts, lo_cwd = ''/proj''\<rparr>])"
  by (simp add: example_env_def always_rejects_def constructor_def execFlow_def exec_loop.simps
        maxTries_def assign_def Let_def)

lemma example_errors_reply:
  "json_parse ''{\"errors\":[{\"message\":\"bad\"}]}''
   = Some (JObj [(''errors'', JArr [JObj [(''message'', JStr ''bad'')]])])"
  by code_simp

theorem findDiagnostics_failure_payload_witness:
  "execFlow (example_env (always_rejects
       (Rejected (Some 2) (Some ''{\"errors\":[{\"message\":\"bad\"}]}'') (Some []))))
     constructor [] (diagnostics_args ''/proj/a.js'' None) (diagnostics_options None) ''/proj/a.js''
   = (Inl (Rejected (Some 2) (Some ''{\"errors\":[{\"message\":\"bad\"}]}'') (Some [])), constructor,
      [Exec ''flow'' (diagnostics_args ''/proj/a.js'' None @ [AStr ''--no-auto-start''])
         \<lparr>lo_stdin = None, lo_cwd = ''/proj''\<rparr>])
   \<and> fst (findDiagnostics (example_env (always_rejects
              (Rejected (Some 2) (Some ''{\"errors\":[{\"message\":\"bad\"}]}'') (Some []))))
            constructor [] ''/proj/a.js'' None)
       = Inr (Some (JArr [JObj [(''message'', JStr ''bad'')]]))
   \<and> execFlow (example_env (always_rejects (Rejected None (Some ''{\"errors\":[1]}'') (Some ''boom''))))
       constructor [] (diagnostics_args ''/proj/a.js'' None) (diagnostics_options None) ''/proj/a.js''
     = (Inl (Rejected None (Some ''{\"errors\":[1]}'') (Some ''boom'')), constructor,
        [Exec ''flow'' (diagnostics_args ''/proj/a.js'' None @ [AStr ''--no-auto-start''])
           \<lparr>lo_stdin = None, lo_cwd = ''/proj''\<rparr>])
   \<and> fst (findDiagnostics
            (example_env (always_rejects (Rejected None (Some ''{\"errors\":[1]}'') (Some ''boom''))))
            constructor [] ''/proj/a.js'' None)
       = Inr (Some (JArr []))"
proof -
  let ?out = "''{\"errors\":[{\"message\":\"bad\"}]}''"
  let ?e1 = "Rejected (Some 2) (Some ?out) (Some [])"
  let ?e2 = "Rejected None (Some ''{\"errors\":[1]}'') (Some ''boom'')"
  let ?w = "[Exec ''flow'' (diagnostics_args ''/proj/a.js'' None @ [AStr ''--no-auto-start''])
               \<lparr>lo_stdin = None, lo_cwd = ''/proj''\<rparr>]"
  have o: "stdin (diagnostics_options None) = None"
    by (simp add: diagnostics_options_def)
  have a: "execFlow (example_env (always_rejects ?e1)) constructor []
             (diagnostics_args ''/proj/a.js'' None) (diagnostics_options None) ''/proj/a.js''
           = (Inl ?e1, constructor, ?w)"
    by (subst example_rejects) (simp_all add: o)
  have b: "execFlow (example_env (always_rejects ?e2)) constructor []
             (diagnostics_args ''/proj/a.js'' None) (diagnostics_options None) ''/proj/a.js''
           = (Inl ?e2, constructor, ?w)"
    by (subst example_rejects) (simp_all add: o sublist_code(3))
  have p: "JSON_parse (example_env (always_rejects ?e1)) ?out
             = Some (JObj [(''errors'', JArr [JObj [(''message'', JStr ''bad'')]])])"
    by (simp add: example_env_def example_errors_reply)
  from findDiagnostics_failure_payload [OF a, of 2 ?out
         "[(''errors'', JArr [JObj [(''message'', JStr ''bad'')]])]"
         "JArr [JObj [(''message'', JStr ''bad'')]]"] p
  have c: "fst (findDiagnostics (example_env (always_rejects ?e1)) constructor [] ''/proj/a.js'' None)
             = Inr (Some (JArr [JObj [(''message'', JStr ''bad'')]]))"
    by simp
  from findDiagnostics_failure_payload [OF b]
  have d: "fst (findDiagnostics (example_env (always_rejects ?e2)) constructor [] ''/proj/a.js'' None)
             = Inr (Some (JArr []))"
    by simp
  from a b c d show ?thesis by blast
qed

section \<open>What the handlers throw\<close>

text \<open>
  Three of the four handlers never throw. \<^verbatim>\<open>findDiagnostics\<close> throws in one case only:
  its last statement reads \<^verbatim>\<open>json['errors']\<close> outside both \<^verbatim>\<open>try\<close> blocks, which
  is a \<^verbatim>\<open>TypeError\<close> when the output decoded to \<^verbatim>\<open>null\<close>.
\<close>

lemma findDefinition_never_raises:
  "\<exists>r. fst (findDefinition E s w f cc ln col) = Inr r"
  by (simp add: findDefinition_def split: prod.splits sum.splits)

lemma getAutocompleteSuggestions_never_raises:
  "\<exists>r. fst (getAutocompleteSuggestions E s w f cc ln col pfx) = Inr r"
  by (simp add: getAutocompleteSuggestions_def Let_def split: prod.splits sum.splits)

lemma getType_never_raises:
  "\<exists>r. fst (getType E s w f cc ln col) = Inr r"
  by (simp add: getType_def Let_def split: prod.splits sum.splits option.splits)

lemma diag_decode_raises:
  "diag_decode E out = Inl e \<Longrightarrow> e = TypeError \<and> (\<exists>src. JSON_parse E src = Some JNull)"
proof -
  assume a: "diag_decode E out = Inl e"
  then obtain src json where j: "JSON_parse E src = Some json" "js_prop json ''errors'' = Inl e"
    by (auto simp: diag_decode_def split: option.splits)
  from j(2) have "json = JNull \<and> e = TypeError"
    by (cases json) auto
  with j(1) show ?thesis by blast
qed

lemma findDiagnostics_raises_only_on_null:
  assumes "fst (findDiagnostics E s w f cc) = Inl e"
  shows "e = TypeError \<and> (\<exists>src. JSON_parse E src = Some JNull)"
proof -
  from assms obtain out where "diag_decode E out = Inl e"
    by (auto simp: findDiagnostics_def Let_def split: prod.splits sum.splits option.splits if_splits)
  then show ?thesis by (rule diag_decode_raises)
qed

text \<open>
  C4. Not every handler keeps its failures to itself: when the binary prints
  \<^verbatim>\<open>null\<close>, \<^verbatim>\<open>findDiagnostics\<close> throws a \<^verbatim>\<open>TypeError\<close>.
\<close>

theorem findDiagnostics_null_reply_raises:
  "findDiagnostics (example_env (prints ''null'')) constructor [] ''/proj/a.js'' None
   = (Inl TypeError, constructor,
      [Exec ''flow'' [AStr ''status'', AStr ''--json'', AStr ''/proj/a.js'', AStr ''--no-auto-start'']
         \<lparr>lo_stdin = None, lo_cwd = ''/proj''\<rparr>])"
  by code_simp

lemma split_lines_nonempty: "split_lines cs \<noteq> []"
  by (induction cs) auto

lemma hd_split_lines: "hd (split_lines cs) = first_line cs"
  by (induction cs) (auto simp: first_line_def)

lemma prefix_first_line:
  "newline \<notin> set p \<Longrightarrow> prefix p (first_line cs) = prefix p cs"
proof (induction cs arbitrary: p)
  case Nil
  then show ?case by (simp add: first_line_def)
next
  case (Cons c cs)
  show ?case
  proof (cases p)
    case Nil
    then show ?thesis by simp
  next
    case (Cons a p')
    with Cons.prems have "a \<noteq> newline" "newline \<notin> set p'" by auto
    with Cons.IH [of p'] Cons show ?thesis
      by (auto simp: first_line_def)
  qed
qed

lemma failure_line:
  assumes "newline \<notin> set p"
  shows "sublist (newline # p) cs = (\<exists>l \<in> set (tl (split_lines cs)). prefix p l)"
proof (induction cs)
  case Nil
  then show ?case by simp
next
  case (Cons c cs)
  have sl: "set (split_lines cs) = insert (hd (split_lines cs)) (set (tl (split_lines cs)))"
    using split_lines_nonempty [of cs] by (cases "split_lines cs") auto
  show ?case
  proof (cases "c = newline")
    case True
    have "sublist (newline # p) (c # cs) = (prefix p cs \<or> sublist (newline # p) cs)"
      using True by (simp add: sublist_Cons_right)
    also have "\<dots> = (prefix p (hd (split_lines cs)) \<or> (\<exists>l \<in> set (tl (split_lines cs)). prefix p l))"
      using Cons.IH prefix_first_line [OF assms] by (simp add: hd_split_lines)
    also have "\<dots> = (\<exists>l \<in> set (split_lines cs). prefix p l)"
      by (subst sl) simp
    finally show ?thesis using True by simp
  next
    case False
    then have "sublist (newline # p) (c # cs) = sublist (newline # p) cs"
      by (simp add: sublist_Cons_right)
    with Cons.IH False show ?thesis by simp
  qed
qed

lemma Failure_line:
  "sublist (newline # ''Failure'') cs = (\<exists>l \<in> set (tl (split_lines cs)). prefix ''Failure'' l)"
  by (rule failure_line) (simp add: newline_def)

section \<open>getType\<close>

text \<open>
  C7, as the code has it. When \<^verbatim>\<open>_execFlow\<close> returns a result, \<^verbatim>\<open>getType\<close> returns
  \<^verbatim>\<open>null\<close> if any line of the output after the first begins with \<^verbatim>\<open>Failure\<close>
  (not only the line that follows the first); otherwise it returns the first line, except
  that \<^verbatim>\<open>(unknown)\<close> and the empty line give \<^verbatim>\<open>null\<close>.
\<close>

theorem getType_result:
  assumes "execFlow E s w (type_args ln col) \<lparr>stdin = Some cc\<rparr> f = (Inr (Some result), s', w')"
  shows "getType E s w f cc ln col =
           (Inr (if \<exists>l \<in> set (tl (split_lines (stdout result))). prefix ''Failure'' l then None
                 else if hd (split_lines (stdout result)) = ''(unknown)''
                         \<or> hd (split_lines (stdout result)) = [] then None
                 else Some (hd (split_lines (stdout result)))), s', w')"
  using assms by (simp add: getType_def Let_def Failure_line hd_split_lines)

theorem getType_result_witness:
  "execFlow (example_env (prints (''Foo'' @ [newline]))) constructor [] (type_args 0 0)
     \<lparr>stdin = Some []\<rparr> ''/proj/a.js''
   = (Inr (Some \<lparr>exitCode = 0, stdout = ''Foo'' @ [newline], stderr = []\<rparr>), constructor,
      [Exec ''flow'' (type_args 0 0 @ [AStr ''--no-auto-start''])
         \<lparr>lo_stdin = Some [], lo_cwd = ''/proj''\<rparr>])
   \<and> fst (getType (example_env (prints (''Foo'' @ [newline]))) constructor [] ''/proj/a.js'' [] 0 0)
       = Inr (Some ''Foo'')"
proof -
  have a: "execFlow (example_env (prints (''Foo'' @ [newline]))) constructor [] (type_args 0 0)
     \<lparr>stdin = Some []\<rparr> ''/proj/a.js''
   = (Inr (Some \<lparr>exitCode = 0, stdout = ''Foo'' @ [newline], stderr = []\<rparr>), constructor,
      [Exec ''flow'' (type_args 0 0 @ [AStr ''--no-auto-start''])
         \<lparr>lo_stdin = Some [], lo_cwd = ''/proj''\<rparr>])"
    by (simp add: example_prints)
  from getType_result [OF a] a show ?thesis
    by (simp add: newline_def)
qed

text \<open>
  An output whose third line begins with \<^verbatim>\<open>Failure\<close>: the line after the first is
  \<^verbatim>\<open>bar\<close>, so the specification's wording gives the first line \<^verbatim>\<open>Foo\<close>, and
  \<^verbatim>\<open>getType\<close> returns \<^verbatim>\<open>null\<close>.
\<close>

theorem getType_later_Failure_counterexample:
  "split_lines (''Foo'' @ newline # ''bar'' @ newline # ''Failure: x'')
     = [''Foo'', ''bar'', ''Failure: x'']
   \<and> claimed_type (''Foo'' @ newline # ''bar'' @ newline # ''Failure: x'') = Some ''Foo''
   \<and> fst (getType (example_env (prints (''Foo'' @ newline # ''bar'' @ newline # ''Failure: x'')))
            constructor [] ''/proj/a.js'' [] 0 0) = Inr None"
  by code_simp

end
